theory Spec2Isabelle
  imports Main
begin

section \<open>JavaScript values used by the chat application\<close>

text \<open>
  Strings are \<open>string\<close>; a JavaScript string is falsy exactly when it is empty. A value
  that may be \<open>null\<close> or \<open>undefined\<close> is an \<open>option\<close>, and \<open>truthy\<close> is the test that
  \<open>if (x)\<close>, \<open>x && \<dots>\<close> and \<open>!x\<close> perform on it.
\<close>

definition truthy :: "string option \<Rightarrow> bool" where
  "truthy v = (case v of None \<Rightarrow> False | Some s \<Rightarrow> s \<noteq> [])"

text \<open>Decimal rendering of a number inside a template literal.\<close>

definition digit_char :: "nat \<Rightarrow> char" where
  "digit_char d = ''0123456789'' ! d"

fun string_of_nat :: "nat \<Rightarrow> string" where
  "string_of_nat n =
     (if n < 10 then [digit_char n] else string_of_nat (n div 10) @ [digit_char (n mod 10)])"

declare string_of_nat.simps [simp del]

definition string_of_int :: "int \<Rightarrow> string" where
  "string_of_int i = (if i < 0 then CHR ''-'' # string_of_nat (nat (- i)) else string_of_nat (nat i))"

text \<open>\<open>s.padStart(2, "0")\<close>.\<close>

definition padStart2 :: "string \<Rightarrow> string" where
  "padStart2 s = replicate (2 - length s) CHR ''0'' @ s"

text \<open>
  \<open>String.prototype.trim\<close> on the ASCII white space characters (space, tab, line feed,
  vertical tab, form feed, carriage return).
\<close>

definition is_space :: "char \<Rightarrow> bool" where
  "is_space c = (c \<in> set [CHR '' '', CHR 0x09, CHR 0x0A, CHR 0x0B, CHR 0x0C, CHR 0x0D])"

definition trim :: "string \<Rightarrow> string" where
  "trim s = rev (dropWhile is_space (rev (dropWhile is_space s)))"

section \<open>Messages and conversations\<close>

text \<open>
  A message is \<open>{id, role, content, timestamp}\<close>. The timestamp is the ISO string that
  \<open>sendMessage\<close> writes; a message stored before timestamps existed has none. A
  conversation is \<open>{id, title}\<close>.
\<close>

record message =
  msg_id :: string
  role :: string
  content :: string
  timestamp :: "string option"

record conversation =
  conv_id :: string
  title :: string

section \<open>MessageList.jsx: date keys, divider labels and grouping\<close>

text \<open>
  The built-in \<open>Date\<close> and \<open>Number\<close> are the environment of these functions:
  \<^item> \<open>local_ymd ts\<close> is the local calendar date (year, month 1..12, day) of
    \<open>new Date(ts)\<close>, or \<open>None\<close> when that is an invalid date;
  \<^item> \<open>number_of s\<close> is \<open>Number(s)\<close>, with \<open>None\<close> for \<open>NaN\<close>;
  \<^item> \<open>day_number y m d\<close> is the day on which \<open>new Date(y, m, d)\<close> falls once
    normalised to local midnight (\<open>None\<close> when the date is invalid, whose time is \<open>NaN\<close>
    and equal to nothing);
  \<^item> \<open>today_day\<close> is the day of \<open>new Date()\<close>; yesterday is the day before.
\<close>

datatype jsnum = NUndefined | NNaN | NInt int

record date_env =
  local_ymd :: "string \<Rightarrow> (int \<times> nat \<times> nat) option"
  number_of :: "string \<Rightarrow> int option"
  day_number :: "jsnum \<Rightarrow> jsnum \<Rightarrow> jsnum \<Rightarrow> int option"
  today_day :: int

definition getDateString :: "date_env \<Rightarrow> string option \<Rightarrow> string" where
  "getDateString env ts =
     (if \<not> truthy ts then []
      else case local_ymd env (the ts) of
             None \<Rightarrow> []
           | Some (year, month, day) \<Rightarrow>
               string_of_int year @ ''-'' @ padStart2 (string_of_nat month)
                 @ ''-'' @ padStart2 (string_of_nat day))"

text \<open>\<open>dateString.split("-")\<close>.\<close>

fun split_dash :: "string \<Rightarrow> string list" where
  "split_dash [] = [[]]"
| "split_dash (c # cs) =
     (if c = CHR ''-'' then [] # split_dash cs
      else case split_dash cs of p # ps \<Rightarrow> (c # p) # ps | [] \<Rightarrow> [[c]])"

definition to_jsnum :: "date_env \<Rightarrow> string \<Rightarrow> jsnum" where
  "to_jsnum env s = (case number_of env s of None \<Rightarrow> NNaN | Some i \<Rightarrow> NInt i)"

text \<open>Array destructuring: a missing element is \<open>undefined\<close>.\<close>

definition element :: "jsnum list \<Rightarrow> nat \<Rightarrow> jsnum" where
  "element xs i = (if i < length xs then xs ! i else NUndefined)"

definition minus_one :: "jsnum \<Rightarrow> jsnum" where
  "minus_one x = (case x of NInt i \<Rightarrow> NInt (i - 1) | _ \<Rightarrow> NNaN)"

definition show_jsnum :: "jsnum \<Rightarrow> string" where
  "show_jsnum x =
     (case x of NUndefined \<Rightarrow> ''undefined'' | NNaN \<Rightarrow> ''NaN'' | NInt i \<Rightarrow> string_of_int i)"

definition monthNames :: "string list" where
  "monthNames = [''Jan'', ''Feb'', ''Mar'', ''Apr'', ''May'', ''Jun'',
                 ''Jul'', ''Aug'', ''Sep'', ''Oct'', ''Nov'', ''Dec'']"

text \<open>\<open>monthNames[month - 1]\<close> inside a template literal.\<close>

definition monthName :: "jsnum \<Rightarrow> string" where
  "monthName x =
     (case x of
        NInt i \<Rightarrow> (if 0 \<le> i \<and> i < 12 then monthNames ! nat i else ''undefined'')
      | _ \<Rightarrow> ''undefined'')"

definition formatDateDivider :: "date_env \<Rightarrow> string \<Rightarrow> string" where
  "formatDateDivider env dateString =
     (if dateString = [] then []
      else
        let parts = map (to_jsnum env) (split_dash dateString);
            year = element parts 0;
            month = element parts 1;
            day = element parts 2;
            messageDate = day_number env year (minus_one month) day
        in if messageDate = Some (today_day env) then ''Today''
           else if messageDate = Some (today_day env - 1) then ''Yesterday''
           else monthName (minus_one month) @ '' '' @ show_jsnum day @ '', '' @ show_jsnum year)"

datatype render_item =
  is_Divider: Divider (dateString: string) (label: string) (key: string)
| is_MessageItem: MessageItem (item_message: message)

text \<open>The date string of a message: \<open>null\<close> when it has no (truthy) timestamp.\<close>

definition currentDateString :: "date_env \<Rightarrow> message \<Rightarrow> string option" where
  "currentDateString env m =
     (if truthy (timestamp m) then Some (getDateString env (timestamp m)) else None)"

text \<open>
  The body of \<open>messages.forEach\<close>: \<open>index\<close> is the position of the message,
  \<open>previousDateString\<close> and \<open>items\<close> are the two variables the loop updates.
\<close>

fun group_loop ::
  "date_env \<Rightarrow> message list \<Rightarrow> nat \<Rightarrow> string option \<Rightarrow> render_item list \<Rightarrow> render_item list"
where
  "group_loop env [] index previousDateString items = items"
| "group_loop env (m # ms) index previousDateString items =
     (let cur = currentDateString env m;
          items1 =
            (if truthy cur \<and> cur \<noteq> previousDateString then
               (let dividerLabel = formatDateDivider env (the cur)
                in if dividerLabel \<noteq> [] then
                     items @ [Divider (the cur) dividerLabel
                                (''divider-'' @ the cur @ ''-'' @ string_of_nat index)]
                   else items)
             else items);
          items2 = items1 @ [MessageItem m]
      in group_loop env ms (Suc index) cur items2)"

definition groupMessagesByDate :: "date_env \<Rightarrow> message list \<Rightarrow> render_item list" where
  "groupMessagesByDate env messages = group_loop env messages 0 None []"

section \<open>useChat.js: the conversation store\<close>

text \<open>
  The hook keeps five state variables. \<open>conversationsById\<close> is an object used as a
  dictionary from conversation id to message array; \<open>error\<close> holds the rejection of the
  reply service.
\<close>

record chat_state =
  conversations :: "conversation list"
  conversationsById :: "string \<rightharpoonup> message list"
  isLoading :: bool
  error :: "string option"
  isHydrated :: bool

definition initial_state :: chat_state where
  "initial_state =
     \<lparr> conversations =
         [\<lparr>conv_id = ''c1'', title = ''First conversation''\<rparr>,
          \<lparr>conv_id = ''c2'', title = ''Second conversation''\<rparr>],
       conversationsById = [''c1'' \<mapsto> [], ''c2'' \<mapsto> []],
       isLoading = False,
       error = None,
       isHydrated = False \<rparr>"

text \<open>\<open>conversationsById[id] || []\<close> and \<open>conversationsById[id] ?? []\<close>.\<close>

definition or_empty :: "message list option \<Rightarrow> message list" where
  "or_empty v = (case v of None \<Rightarrow> [] | Some ms \<Rightarrow> ms)"

subsection \<open>createConversation\<close>

text \<open>
  \<open>activeConversationId\<close> is the argument of the hook and \<open>now\<close> the value of
  \<open>Date.now()\<close>. The callback is rebuilt at every render in which the conversations or
  the messages have changed: \<open>createConversation\<close> is a call made on the render that
  shows the state \<open>st\<close>. The result is the returned id and the state after the two
  updaters have run.
\<close>

definition createConversation :: "string option \<Rightarrow> nat \<Rightarrow> chat_state \<Rightarrow> string \<times> chat_state" where
  "createConversation activeConversationId now st =
     (let activeMessages =
            (if truthy activeConversationId
             then or_empty (conversationsById st (the activeConversationId)) else [])
      in if truthy activeConversationId \<and> length activeMessages = 0 then
           (the activeConversationId, st)
         else
           case find (\<lambda>conv. length (or_empty (conversationsById st (conv_id conv))) = 0)
                  (conversations st) of
             Some existingEmptyConversation \<Rightarrow> (conv_id existingEmptyConversation, st)
           | None \<Rightarrow>
               let newId = ''c-'' @ string_of_nat now;
                   newConversation = \<lparr>conv_id = newId, title = ''New conversation''\<rparr>
               in (newId,
                   st\<lparr>conversations := conversations st @ [newConversation],
                      conversationsById := (conversationsById st)(newId \<mapsto> [])\<rparr>))"

text \<open>
  Between two renders the callback stays the one of the last render. It decides on the
  \<open>conversations\<close> and \<open>conversationsById\<close> of that render, the arguments
  \<open>seenConversations\<close> and \<open>seenById\<close>; it only queues its two updaters, which run on the
  state \<open>st\<close> of the moment.
\<close>

definition createConversation_seen ::
  "conversation list \<Rightarrow> (string \<rightharpoonup> message list) \<Rightarrow> string option \<Rightarrow> nat \<Rightarrow> chat_state
     \<Rightarrow> string \<times> chat_state"
where
  "createConversation_seen seenConversations seenById activeConversationId now st =
     (let activeMessages =
            (if truthy activeConversationId
             then or_empty (seenById (the activeConversationId)) else [])
      in if truthy activeConversationId \<and> length activeMessages = 0 then
           (the activeConversationId, st)
         else
           case find (\<lambda>conv. length (or_empty (seenById (conv_id conv))) = 0)
                  seenConversations of
             Some existingEmptyConversation \<Rightarrow> (conv_id existingEmptyConversation, st)
           | None \<Rightarrow>
               let newId = ''c-'' @ string_of_nat now;
                   newConversation = \<lparr>conv_id = newId, title = ''New conversation''\<rparr>
               in (newId,
                   st\<lparr>conversations := conversations st @ [newConversation],
                      conversationsById := (conversationsById st)(newId \<mapsto> [])\<rparr>))"

subsection \<open>sendMessage\<close>

text \<open>The two clock reads of a call: \<open>Date.now()\<close> and \<open>new Date().toISOString()\<close>.\<close>

record clock =
  now_ms :: nat
  now_iso :: string

text \<open>The outcome of awaiting the reply service.\<close>

datatype reply = Resolved message | Rejected string

definition conversationCount :: "conversation list \<Rightarrow> (string \<rightharpoonup> message list) \<Rightarrow> string \<Rightarrow> nat" where
  "conversationCount convs byId activeConversationId =
     length (filter
       (\<lambda>conv. conv_id conv \<noteq> activeConversationId \<and>
          (length (or_empty (byId (conv_id conv))) > 0 \<or> title conv \<noteq> ''New conversation''))
       convs)"

definition ordinals :: "string list" where
  "ordinals = [''First'', ''Second'', ''Third'', ''Fourth'', ''Fifth'',
               ''Sixth'', ''Seventh'', ''Eighth'', ''Ninth'', ''Tenth'']"

text \<open>\<open>ordinals[conversationCount] || `${conversationCount + 1}th`\<close>.\<close>

definition ordinal :: "nat \<Rightarrow> string" where
  "ordinal n = (if n < length ordinals then ordinals ! n else string_of_nat (n + 1) @ ''th'')"

text \<open>The updater given to \<open>setConversations\<close>; it runs on the state of the moment.\<close>

definition renameConversation :: "string \<Rightarrow> nat \<Rightarrow> conversation list \<Rightarrow> conversation list" where
  "renameConversation activeConversationId count prevConversations =
     (case find (\<lambda>c. conv_id c = activeConversationId) prevConversations of
        None \<Rightarrow> prevConversations
      | Some currentConversation \<Rightarrow>
          if title currentConversation \<noteq> ''New conversation'' then prevConversations
          else
            let newTitle = ordinal count @ '' conversation''
            in map (\<lambda>conv. if conv_id conv = activeConversationId
                            then conv\<lparr>title := newTitle\<rparr> else conv)
                 prevConversations)"

definition userMessage_of :: "clock \<Rightarrow> string \<Rightarrow> message" where
  "userMessage_of clk userText =
     \<lparr> msg_id = ''user-'' @ string_of_nat (now_ms clk),
       role = ''user'',
       content = trim userText,
       timestamp = Some (now_iso clk) \<rparr>"

text \<open>
  The part of \<open>sendMessage\<close> before the \<open>await\<close>. The callback is rebuilt only when the
  active id changes, so \<open>conversations\<close> and \<open>conversationsById\<close> inside it are the values
  of the render that built it: they are the arguments \<open>seenConversations\<close> and \<open>seenById\<close>.
  The updaters run on the state \<open>st\<close> of the moment.
\<close>

definition sendMessage_start ::
  "conversation list \<Rightarrow> (string \<rightharpoonup> message list) \<Rightarrow> string \<Rightarrow> clock \<Rightarrow> string
     \<Rightarrow> chat_state \<Rightarrow> chat_state"
where
  "sendMessage_start seenConversations seenById activeConversationId clk userText st =
     (let st1 = st\<lparr>error := None, isLoading := True\<rparr>;
          userMessage = userMessage_of clk userText;
          isFirstMessage = (length (or_empty (seenById activeConversationId)) = 0);
          count = (if isFirstMessage
                   then conversationCount seenConversations seenById activeConversationId
                   else 0);
          st2 = st1\<lparr>conversationsById :=
                  (conversationsById st1)(activeConversationId \<mapsto>
                     or_empty (conversationsById st1 activeConversationId) @ [userMessage])\<rparr>
      in if isFirstMessage
         then st2\<lparr>conversations := renameConversation activeConversationId count (conversations st2)\<rparr>
         else st2)"

text \<open>The part after the \<open>await\<close>: \<open>try\<close>, \<open>catch\<close> and \<open>finally\<close>.\<close>

definition sendMessage_settle :: "string \<Rightarrow> reply \<Rightarrow> clock \<Rightarrow> chat_state \<Rightarrow> chat_state" where
  "sendMessage_settle activeConversationId r clk st =
     (case r of
        Resolved assistantMessage \<Rightarrow>
          st\<lparr>conversationsById :=
               (conversationsById st)(activeConversationId \<mapsto>
                  or_empty (conversationsById st activeConversationId)
                    @ [assistantMessage\<lparr>timestamp := Some (now_iso clk)\<rparr>])\<rparr>
      | Rejected err \<Rightarrow> st\<lparr>error := Some err\<rparr>)
     \<lparr>isLoading := False\<rparr>"

definition sendMessage ::
  "conversation list \<Rightarrow> (string \<rightharpoonup> message list) \<Rightarrow> string option \<Rightarrow> string \<Rightarrow> clock
     \<Rightarrow> reply \<Rightarrow> clock \<Rightarrow> chat_state \<Rightarrow> chat_state"
where
  "sendMessage seenConversations seenById activeConversationId userText clk r clk' st =
     (if userText = [] \<or> trim userText = [] \<or> \<not> truthy activeConversationId then st
      else sendMessage_settle (the activeConversationId) r clk'
             (sendMessage_start seenConversations seenById (the activeConversationId)
                clk userText st))"

subsection \<open>clearConversation\<close>

definition clearConversation :: "string option \<Rightarrow> chat_state \<Rightarrow> chat_state" where
  "clearConversation conversationId st =
     (if \<not> truthy conversationId then st
      else st\<lparr>conversationsById := (conversationsById st)(the conversationId \<mapsto> [])\<rparr>)"

subsection \<open>Hydration and persistence\<close>

text \<open>
  \<open>localStorage\<close> is reduced to the one key the hook uses (\<open>chat-app:conversations\<close>):
  \<open>item\<close> is the stored string, if any; \<open>read_fails\<close> and \<open>write_fails\<close> say whether
  \<open>getItem\<close> and \<open>setItem\<close> throw (store unavailable, quota exceeded).
\<close>

datatype exn = StorageError | SyntaxError | TypeError

record local_storage =
  item :: "string option"
  read_fails :: bool
  write_fails :: bool

definition getItem :: "local_storage \<Rightarrow> exn + string option" where
  "getItem ls = (if read_fails ls then Inl StorageError else Inr (item ls))"

definition setItem :: "local_storage \<Rightarrow> string \<Rightarrow> exn + local_storage" where
  "setItem ls v = (if write_fails ls then Inl StorageError else Inr (ls\<lparr>item := Some v\<rparr>))"

text \<open>
  The stored payload \<open>{version, conversations, conversationsById}\<close>. The version may be
  any primitive value. A field \<open>conversations\<close> or \<open>conversationsById\<close> is \<open>None\<close> when it
  is missing or falsy; when it is there it is an array or an object, which JavaScript
  counts as truthy even when empty.
\<close>

datatype jsval = JUndefined | JNull | JBool bool | JNum int | JStr string

record snapshot =
  version :: jsval
  snap_conversations :: "conversation list option"
  snap_conversationsById :: "(string \<rightharpoonup> message list) option"

text \<open>
  What \<open>JSON.parse\<close> returns: \<open>null\<close>, on which reading a property throws; another
  value that is no payload object (a number, a string, a boolean, an array), whose
  \<open>version\<close> is \<open>undefined\<close>; or an object. \<open>JSON.parse\<close> and \<open>JSON.stringify\<close> themselves
  are the environment; \<open>JSON_parse\<close> is \<open>None\<close> where \<open>JSON.parse\<close> throws.
\<close>

datatype parsed = PNull | PNonObject | PObject snapshot

record json_env =
  JSON_parse :: "string \<Rightarrow> parsed option"
  JSON_stringify :: "snapshot \<Rightarrow> string"

definition STORAGE_VERSION :: int where
  "STORAGE_VERSION = 1"

text \<open>The \<open>try\<close> block of the hydration effect: an exception or the state after the setters.\<close>

definition hydrate_try :: "json_env \<Rightarrow> local_storage \<Rightarrow> chat_state \<Rightarrow> exn + chat_state" where
  "hydrate_try env ls st =
     (case getItem ls of
        Inl e \<Rightarrow> Inl e
      | Inr raw \<Rightarrow>
          if \<not> truthy raw then Inr st
          else
            (case JSON_parse env (the raw) of
               None \<Rightarrow> Inl SyntaxError
             | Some PNull \<Rightarrow> Inl TypeError
             | Some PNonObject \<Rightarrow> Inr st
             | Some (PObject p) \<Rightarrow>
                 if version p = JNum STORAGE_VERSION then
                   (case (snap_conversations p, snap_conversationsById p) of
                      (Some cs, Some byId) \<Rightarrow>
                        Inr (st\<lparr>conversations := cs, conversationsById := byId\<rparr>)
                    | _ \<Rightarrow> Inr st)
                 else Inr st))"

text \<open>The whole effect: the \<open>catch\<close> only logs, then \<open>setIsHydrated(true)\<close>.\<close>

definition hydrate :: "json_env \<Rightarrow> local_storage \<Rightarrow> chat_state \<Rightarrow> chat_state" where
  "hydrate env ls st =
     (case hydrate_try env ls st of Inl e \<Rightarrow> st | Inr st' \<Rightarrow> st')\<lparr>isHydrated := True\<rparr>"

definition payload_of :: "chat_state \<Rightarrow> snapshot" where
  "payload_of st =
     \<lparr> version = JNum STORAGE_VERSION,
       snap_conversations = Some (conversations st),
       snap_conversationsById = Some (conversationsById st) \<rparr>"

text \<open>
  The persistence effect, on the pair of in-memory state and store. It calls no setter:
  the state comes back as it went in.
\<close>

definition persist :: "json_env \<Rightarrow> chat_state \<times> local_storage \<Rightarrow> chat_state \<times> local_storage" where
  "persist env w =
     (case w of (st, ls) \<Rightarrow>
        if \<not> isHydrated st then (st, ls)
        else
          (case setItem ls (JSON_stringify env (payload_of st)) of
             Inl e \<Rightarrow> (st, ls)
           | Inr ls' \<Rightarrow> (st, ls')))"

text \<open>
  React runs the effect after a render in which one of its dependencies
  \<open>[conversations, conversationsById, isHydrated]\<close> has changed: \<open>commit old w\<close> is what
  follows a state change from \<open>old\<close> to the state of \<open>w\<close>.
\<close>

definition persist_deps ::
  "chat_state \<Rightarrow> conversation list \<times> (string \<rightharpoonup> message list) \<times> bool" where
  "persist_deps st = (conversations st, conversationsById st, isHydrated st)"

definition commit :: "json_env \<Rightarrow> chat_state \<Rightarrow> chat_state \<times> local_storage \<Rightarrow> chat_state \<times> local_storage" where
  "commit env old w = (if persist_deps (fst w) \<noteq> persist_deps old then persist env w else w)"

subsection \<open>Runs of operations\<close>

text \<open>
  The operations the user interface performs on a hydrated store, each with the
  arguments of its call, and what a sequence of them does.
\<close>

datatype operation =
  CreateConversation "string option" nat
| SendMessage "conversation list" "string \<rightharpoonup> message list" "string option" string clock reply clock
| ClearConversation "string option"

fun apply_op :: "operation \<Rightarrow> chat_state \<Rightarrow> chat_state" where
  "apply_op (CreateConversation active now) st = snd (createConversation active now st)"
| "apply_op (SendMessage seenConversations seenById active userText clk r clk') st =
     sendMessage seenConversations seenById active userText clk r clk' st"
| "apply_op (ClearConversation conversationId) st = clearConversation conversationId st"

definition run :: "operation list \<Rightarrow> chat_state \<Rightarrow> chat_state" where
  "run ops st = fold apply_op ops st"

text \<open>
  A sequence of \<open>createConversation()\<close> calls. Each call comes with a flag that says
  whether React has rendered since the call before, with its active id and with its
  clock reading. \<open>view\<close> is the pair of \<open>conversations\<close> and \<open>conversationsById\<close> that the
  last render has shown: a render makes it the pair of the current state, and without
  one the call still decides on the old pair.
\<close>

fun create_calls ::
  "(bool \<times> string option \<times> nat) list \<Rightarrow> conversation list \<times> (string \<rightharpoonup> message list)
     \<Rightarrow> chat_state \<Rightarrow> chat_state"
where
  "create_calls [] view st = st"
| "create_calls ((rendered, active, now) # calls) view st =
     (let view' = (if rendered then (conversations st, conversationsById st) else view)
      in create_calls calls view'
           (snd (createConversation_seen (fst view') (snd view') active now st)))"

section \<open>Descriptions used to state the properties\<close>

subsection \<open>Where the grouping pass puts dividers\<close>

text \<open>
  The date string that the loop holds in \<open>previousDateString\<close> when it reaches message
  \<open>i\<close>: \<open>null\<close> at the first message, afterwards the date string of the message just
  before (\<open>null\<close> again when that message has no timestamp).
\<close>

definition previous_key :: "date_env \<Rightarrow> message list \<Rightarrow> nat \<Rightarrow> string option" where
  "previous_key env ms i = (if i = 0 then None else currentDateString env (ms ! (i - 1)))"

definition divider_before :: "date_env \<Rightarrow> message list \<Rightarrow> nat \<Rightarrow> bool" where
  "divider_before env ms i =
     (truthy (currentDateString env (ms ! i)) \<and>
      currentDateString env (ms ! i) \<noteq> previous_key env ms i)"

text \<open>The render items that message \<open>i\<close> contributes: its divider, if any, then itself.\<close>

definition items_for :: "date_env \<Rightarrow> message list \<Rightarrow> nat \<Rightarrow> render_item list" where
  "items_for env ms i =
     (if divider_before env ms i
      then [Divider (the (currentDateString env (ms ! i)))
              (formatDateDivider env (the (currentDateString env (ms ! i))))
              (''divider-'' @ the (currentDateString env (ms ! i)) @ ''-'' @ string_of_nat i)]
      else [])
     @ [MessageItem (ms ! i)]"

text \<open>
  The pass as the specification words it (section 4.2): the previous bucket key is
  updated to the newly computed key, and left unchanged by a message without timestamp.
\<close>

fun spec_group_loop ::
  "date_env \<Rightarrow> message list \<Rightarrow> nat \<Rightarrow> string option \<Rightarrow> render_item list"
where
  "spec_group_loop env [] index previous = []"
| "spec_group_loop env (m # ms) index previous =
     (let k = currentDateString env m
      in (if truthy k \<and> k \<noteq> previous
          then [Divider (the k) (formatDateDivider env (the k))
                  (''divider-'' @ the k @ ''-'' @ string_of_nat index)]
          else [])
         @ MessageItem m
         # spec_group_loop env ms (Suc index) (if k = None then previous else k))"

definition spec_groupMessages :: "date_env \<Rightarrow> message list \<Rightarrow> render_item list" where
  "spec_groupMessages env ms = spec_group_loop env ms 0 None"

text \<open>
  An environment and a conversation to run the pass on: two messages of 18 January 2025
  with an undated message between them, read on 2 October 2026.
\<close>

definition example_env :: date_env where
  "example_env =
     \<lparr> local_ymd = (\<lambda>ts. if ts = ''2025-01-18T10:00:00'' then Some (2025, 1, 18)
                          else if ts = ''2025-01-18T15:30:00'' then Some (2025, 1, 18)
                          else None),
       number_of = (\<lambda>s. if s = ''2025'' then Some 2025 else if s = ''01'' then Some 1
                         else if s = ''18'' then Some 18 else None),
       day_number = (\<lambda>y m d. case (y, m, d) of
                        (NInt y', NInt m', NInt d') \<Rightarrow> Some (y' * 372 + m' * 31 + d')
                      | _ \<Rightarrow> None),
       today_day = 2026 * 372 + 9 * 31 + 2 \<rparr>"

definition example_messages :: "message list" where
  "example_messages =
     [\<lparr>msg_id = ''user-1'', role = ''user'', content = ''hello'',
        timestamp = Some ''2025-01-18T10:00:00''\<rparr>,
      \<lparr>msg_id = ''assistant-2'', role = ''assistant'', content = ''hi'', timestamp = None\<rparr>,
      \<lparr>msg_id = ''user-3'', role = ''user'', content = ''again'',
        timestamp = Some ''2025-01-18T15:30:00''\<rparr>]"

subsection \<open>Empty conversations, matching keys, the conversation that is created\<close>

definition has_no_messages :: "chat_state \<Rightarrow> conversation \<Rightarrow> bool" where
  "has_no_messages st c = (length (or_empty (conversationsById st (conv_id c))) = 0)"

text \<open>The ids of the metadata list are the keys of the message map.\<close>

definition keys_match :: "chat_state \<Rightarrow> bool" where
  "keys_match st = (conv_id ` set (conversations st) = dom (conversationsById st))"

text \<open>The id made from the clock, and the state with the conversation of that id added.\<close>

definition new_conversation_id :: "nat \<Rightarrow> string" where
  "new_conversation_id now = ''c-'' @ string_of_nat now"

definition with_new_conversation :: "nat \<Rightarrow> chat_state \<Rightarrow> chat_state" where
  "with_new_conversation now st =
     st\<lparr>conversations := conversations st
            @ [\<lparr>conv_id = new_conversation_id now, title = ''New conversation''\<rparr>],
        conversationsById := (conversationsById st)(new_conversation_id now \<mapsto> [])\<rparr>"

text \<open>
  A state to run the operations on: the seed state, hydrated, once each of its
  conversations holds a message.
\<close>

definition example_message :: message where
  "example_message =
     \<lparr>msg_id = ''user-1'', role = ''user'', content = ''hello'',
      timestamp = Some ''2025-01-18T10:00:00''\<rparr>"

definition busy_state :: chat_state where
  "busy_state =
     initial_state\<lparr>conversationsById :=
                     [''c1'' \<mapsto> [example_message], ''c2'' \<mapsto> [example_message]],
                   isHydrated := True\<rparr>"

subsection \<open>Conversations in use, stored keys, titles along a run\<close>


definition others_in_use :: "chat_state \<Rightarrow> string \<Rightarrow> conversation list" where
  "others_in_use st a =
     filter (\<lambda>c. conv_id c \<noteq> a \<and>
                 (or_empty (conversationsById st (conv_id c)) \<noteq> [] \<or> title c \<noteq> ''New conversation''))
       (conversations st)"

text \<open>A stored payload that has both fields has the same ids in both.\<close>

definition snapshot_keys_match :: "snapshot \<Rightarrow> bool" where
  "snapshot_keys_match p =
     (case (snap_conversations p, snap_conversationsById p) of
        (Some cs, Some byId) \<Rightarrow> conv_id ` set cs = dom byId
      | _ \<Rightarrow> True)"

text \<open>
  Two facts about metadata lists that the proofs on titles carry along a run. In
  \<open>first_decides cs\<close>, a conversation that has been named is not hidden behind an
  unnamed conversation of the same id, which is the one \<open>find\<close> would return.
  \<open>titles_kept cs cs'\<close> relates a list to a later one: the conversations of \<open>cs\<close> are
  still there, at the same places and with their ids, a title that is not the
  placeholder is the same, and a title that differs is an ordinal name.
\<close>

definition first_decides :: "conversation list \<Rightarrow> bool" where
  "first_decides cs =
     (\<forall>c\<in>set cs. title c \<noteq> ''New conversation'' \<longrightarrow>
        (\<forall>f. find (\<lambda>d. conv_id d = conv_id c) cs = Some f \<longrightarrow> title f \<noteq> ''New conversation''))"

definition titles_kept :: "conversation list \<Rightarrow> conversation list \<Rightarrow> bool" where
  "titles_kept cs cs' =
     (length cs \<le> length cs' \<and>
      (\<forall>i<length cs.
         conv_id (cs' ! i) = conv_id (cs ! i) \<and>
         (title (cs ! i) \<noteq> ''New conversation'' \<longrightarrow> title (cs' ! i) = title (cs ! i)) \<and>
         (title (cs' ! i) \<noteq> title (cs ! i) \<longrightarrow>
            (\<exists>n. title (cs' ! i) = ordinal n @ '' conversation''))))"

subsection \<open>Calls and stores to run the operations on\<close>

text \<open>
  Two clock readings; the state \<open>busy_state\<close> after \<open>createConversation()\<close> at clock
  reading 1700000000000; a first message sent in the conversation so created, the reply
  service rejecting; a JSON environment that knows one stored text, the payload of
  \<open>busy_state\<close>; and a store that holds this text.
\<close>

definition example_clock :: clock where
  "example_clock = \<lparr>now_ms = 1700000000500, now_iso = ''2023-11-14T22:13:20.500Z''\<rparr>"

definition later_clock :: clock where
  "later_clock = \<lparr>now_ms = 1700000001200, now_iso = ''2023-11-14T22:13:21.200Z''\<rparr>"

definition fresh_state :: chat_state where
  "fresh_state = with_new_conversation 1700000000000 busy_state"

definition first_send :: operation where
  "first_send =
     SendMessage (conversations fresh_state) (conversationsById fresh_state)
       (Some ''c-1700000000000'') ''  hello '' example_clock (Rejected ''offline'') later_clock"

definition stored_text :: string where
  "stored_text = ''{version: 1, conversations: [c1, c2], conversationsById: {c1: [user-1], c2: [user-1]}}''"

definition example_json :: json_env where
  "example_json =
     \<lparr> JSON_parse = (\<lambda>raw. if raw = stored_text then Some (PObject (payload_of busy_state))
                          else if raw = ''null'' then Some PNull
                          else if raw = ''[]'' then Some PNonObject
                          else None),
       JSON_stringify = (\<lambda>p. stored_text) \<rparr>"

definition example_storage :: local_storage where
  "example_storage = \<lparr>item = Some stored_text, read_fails = False, write_fails = False\<rparr>"


section \<open>Properties of the grouping pass\<close>

lemmas example_simps =
  example_env_def example_messages_def Let_def currentDateString_def truthy_def
  getDateString_def formatDateDivider_def string_of_int_def padStart2_def digit_char_def
  to_jsnum_def element_def minus_one_def monthName_def monthNames_def show_jsnum_def
  string_of_nat.simps

lemma formatDateDivider_nonempty: "k \<noteq> [] \<Longrightarrow> formatDateDivider env k \<noteq> []"
  by (simp add: formatDateDivider_def Let_def)

text \<open>
  The loop, from any point of its run: what it appends to \<open>items\<close> is, message by
  message, a divider when the date string is truthy and differs from the one held in
  \<open>previousDateString\<close>, then the message.
\<close>

lemma group_loop_items:
  "group_loop env ms index previous items =
     items @ concat (map (\<lambda>i.
        (if truthy (currentDateString env (ms ! i)) \<and>
            currentDateString env (ms ! i) \<noteq>
              (if i = 0 then previous else currentDateString env (ms ! (i - 1)))
         then [Divider (the (currentDateString env (ms ! i)))
                 (formatDateDivider env (the (currentDateString env (ms ! i))))
                 (''divider-'' @ the (currentDateString env (ms ! i)) @ ''-''
                    @ string_of_nat (index + i))]
         else [])
        @ [MessageItem (ms ! i)]) [0..<length ms])"
proof (induction ms arbitrary: index previous items)
  case Nil
  show ?case by simp
next
  case (Cons m ms)
  have upt: "[0..<length (m # ms)] = 0 # map Suc [0..<length ms]"
    by (simp add: upt_conv_Cons map_Suc_upt del: upt_Suc)
  have lab: "truthy (currentDateString env m) \<Longrightarrow>
               formatDateDivider env (the (currentDateString env m)) \<noteq> []"
    by (auto simp: truthy_def formatDateDivider_nonempty split: option.splits)
  show ?case
    unfolding upt
    by (auto simp add: Cons.IH Let_def lab o_def nth_Cons'
          simp del: upt_Suc
          intro!: arg_cong[where f=concat] map_cong)
qed

lemma messages_of_items:
  "map item_message (filter is_MessageItem (concat (map (items_for env ms) [i..<length ms])))
     = drop i ms"
proof (induction "length ms - i" arbitrary: i)
  case 0
  then show ?case by simp
next
  case (Suc n)
  then have i: "i < length ms" by simp
  have n: "n = length ms - Suc i" using Suc.hyps(2) by simp
  have upt: "[i..<length ms] = i # [Suc i..<length ms]"
    using i by (rule upt_conv_Cons)
  have here: "map item_message (filter is_MessageItem (items_for env ms i)) = [ms ! i]"
    by (simp add: items_for_def)
  have "map item_message (filter is_MessageItem (concat (map (items_for env ms) [i..<length ms])))
          = (ms ! i) # drop (Suc i) ms"
    unfolding upt using here Suc.hyps(1)[OF n] by simp
  then show ?case using i by (simp add: Cons_nth_drop_Suc)
qed

text \<open>
  C1 (as the code has it). For every message sequence, the render list is, message by
  message in input order, a divider immediately followed by the message when
  \<open>divider_before\<close> holds, and the message alone otherwise; \<open>divider_before\<close> holds
  exactly when the date string of the message is non-empty and differs from the date
  string of the message just before it, which is \<open>null\<close> for the first message and for
  a message without timestamp. A message without timestamp has no date string, so it
  never gets a divider; it does reset the previous date string to \<open>null\<close>. The message
  items of the render list are the input messages, in order.
\<close>

theorem groupMessagesByDate_dividers:
  "groupMessagesByDate env ms = concat (map (items_for env ms) [0..<length ms])
   \<and> map item_message (filter is_MessageItem (groupMessagesByDate env ms)) = ms"
proof -
  have a: "groupMessagesByDate env ms = concat (map (items_for env ms) [0..<length ms])"
    unfolding groupMessagesByDate_def group_loop_items
    by (simp add: items_for_def[abs_def] divider_before_def previous_key_def
          cong: if_cong)
  show ?thesis using messages_of_items[of env ms 0] by (simp add: a)
qed

theorem groupMessagesByDate_dividers_witness:
  "groupMessagesByDate example_env example_messages =
     concat (map (items_for example_env example_messages) [0..<length example_messages])
   \<and> map item_message (filter is_MessageItem (groupMessagesByDate example_env example_messages))
       = example_messages"
  by (rule groupMessagesByDate_dividers)

text \<open>
  C1 as stated fails: the third message of the example has the date string of the first
  one, the previous non-null bucket key, and the undated message between them is said to
  leave that key unchanged; the code nevertheless emits a second divider before the
  third message, where the pass of the specification emits none.
\<close>

theorem groupMessagesByDate_undated_counterexample:
  "currentDateString example_env (example_messages ! 0) = Some ''2025-01-18''
   \<and> currentDateString example_env (example_messages ! 1) = None
   \<and> currentDateString example_env (example_messages ! 2) = Some ''2025-01-18''
   \<and> groupMessagesByDate example_env example_messages =
       [Divider ''2025-01-18'' ''Jan 18, 2025'' ''divider-2025-01-18-0'',
        MessageItem (example_messages ! 0),
        MessageItem (example_messages ! 1),
        Divider ''2025-01-18'' ''Jan 18, 2025'' ''divider-2025-01-18-2'',
        MessageItem (example_messages ! 2)]
   \<and> spec_groupMessages example_env example_messages =
       [Divider ''2025-01-18'' ''Jan 18, 2025'' ''divider-2025-01-18-0'',
        MessageItem (example_messages ! 0),
        MessageItem (example_messages ! 1),
        MessageItem (example_messages ! 2)]"
  by (simp add: groupMessagesByDate_def spec_groupMessages_def example_simps)

section \<open>Properties of createConversation\<close>

lemma createConversation_active_empty:
  "truthy a \<Longrightarrow> or_empty (conversationsById st (the a)) = [] \<Longrightarrow>
   createConversation a now st = (the a, st)"
  by (simp add: createConversation_def)

lemma createConversation_existing_empty:
  assumes "\<not> (truthy a \<and> or_empty (conversationsById st (the a)) = [])"
    and "find (has_no_messages st) (conversations st) = Some c"
  shows "createConversation a now st = (conv_id c, st)"
  using assms by (auto simp: createConversation_def has_no_messages_def[abs_def] Let_def)

lemma createConversation_new:
  assumes "\<not> (truthy a \<and> or_empty (conversationsById st (the a)) = [])"
    and "find (has_no_messages st) (conversations st) = None"
  shows "createConversation a now st = (new_conversation_id now, with_new_conversation now st)"
  using assms
  by (auto simp: createConversation_def has_no_messages_def[abs_def] Let_def
        new_conversation_id_def with_new_conversation_def)

lemma createConversation_state:
  "snd (createConversation a now st) = st \<or>
   (find (has_no_messages st) (conversations st) = None \<and>
    snd (createConversation a now st) = with_new_conversation now st)"
proof (cases "truthy a \<and> or_empty (conversationsById st (the a)) = []")
  case True
  then show ?thesis by (simp add: createConversation_active_empty)
next
  case False
  show ?thesis
  proof (cases "find (has_no_messages st) (conversations st)")
    case None
    then show ?thesis using createConversation_new[OF False None] by simp
  next
    case (Some c)
    then show ?thesis using createConversation_existing_empty[OF False Some] by simp
  qed
qed

lemma createConversation_unchanged:
  assumes "\<exists>c\<in>set (conversations st). has_no_messages st c"
  shows "snd (createConversation a now st) = st"
proof -
  from assms have "find (has_no_messages st) (conversations st) \<noteq> None"
    by (auto simp: find_None_iff)
  with createConversation_state[of a now st] show ?thesis by auto
qed

lemma with_new_conversation_has_empty:
  "\<exists>c\<in>set (conversations (with_new_conversation now st)).
      has_no_messages (with_new_conversation now st) c"
  by (simp add: with_new_conversation_def has_no_messages_def or_empty_def)

lemma createConversation_seen_current:
  "createConversation_seen (conversations st) (conversationsById st) a now st
     = createConversation a now st"
  by (simp add: createConversation_seen_def createConversation_def)

lemma createConversation_seen_state:
  "snd (createConversation_seen sc sm a now st) = st \<or>
   (find (\<lambda>conv. length (or_empty (sm (conv_id conv))) = 0) sc = None \<and>
    snd (createConversation_seen sc sm a now st) = with_new_conversation now st)"
  by (auto simp: createConversation_seen_def Let_def with_new_conversation_def
        new_conversation_id_def split: option.splits)

lemma createConversation_seen_unchanged:
  assumes "\<exists>c\<in>set sc. or_empty (sm (conv_id c)) = []"
  shows "snd (createConversation_seen sc sm a now st) = st"
proof -
  from assms have "find (\<lambda>conv. length (or_empty (sm (conv_id conv))) = 0) sc \<noteq> None"
    by (auto simp: find_None_iff)
  with createConversation_seen_state[of sc sm a now st] show ?thesis by auto
qed

lemma createConversation_seen_appends:
  assumes "\<not> (truthy a \<and> or_empty (sm (the a)) = [])"
    and "\<forall>c\<in>set sc. or_empty (sm (conv_id c)) \<noteq> []"
  shows "snd (createConversation_seen sc sm a now st) = with_new_conversation now st"
proof -
  from assms(2) have "find (\<lambda>conv. length (or_empty (sm (conv_id conv))) = 0) sc = None"
    by (simp add: find_None_iff)
  with assms(1) show ?thesis
    by (auto simp: createConversation_seen_def Let_def with_new_conversation_def
          new_conversation_id_def)
qed

lemma create_calls_current_unchanged:
  assumes "\<exists>c\<in>set (conversations st). has_no_messages st c"
  shows "create_calls calls (conversations st, conversationsById st) st = st"
proof (induction calls)
  case Nil
  show ?case by simp
next
  case (Cons call calls)
  obtain rendered a now where call: "call = (rendered, a, now)" by (cases call)
  have e: "\<exists>c\<in>set (conversations st). or_empty (conversationsById st (conv_id c)) = []"
    using assms by (simp add: has_no_messages_def)
  have "snd (createConversation_seen (conversations st) (conversationsById st) a now st) = st"
    using e by (rule createConversation_seen_unchanged)
  then show ?case unfolding call using Cons.IH by simp
qed

lemma create_calls_rendered_view:
  assumes "\<forall>call\<in>set calls. fst call"
  shows "create_calls calls view st = create_calls calls (conversations st, conversationsById st) st"
proof (cases calls)
  case Nil
  then show ?thesis by simp
next
  case (Cons call rest)
  obtain rendered a now where call: "call = (rendered, a, now)" by (cases call)
  with assms Cons have "rendered" by simp
  then show ?thesis unfolding Cons call by simp
qed

lemma create_calls_rendered_length:
  assumes "\<forall>call\<in>set calls. fst call"
  shows "length (conversations (create_calls calls view st)) \<le> Suc (length (conversations st))"
  using assms
proof (induction calls arbitrary: view st)
  case Nil
  show ?case by simp
next
  case (Cons call calls)
  obtain rendered a now where call: "call = (rendered, a, now)" by (cases call)
  from Cons.prems call have r: "rendered" and rest: "\<forall>call\<in>set calls. fst call" by simp_all
  let ?st' = "snd (createConversation_seen (conversations st) (conversationsById st) a now st)"
  have step: "create_calls (call # calls) view st
                = create_calls calls (conversations ?st', conversationsById ?st') ?st'"
    unfolding call using r create_calls_rendered_view[OF rest] by simp
  from createConversation_seen_state[of "conversations st" "conversationsById st" a now st]
  show ?case
  proof
    assume "?st' = st"
    then show ?thesis unfolding step using Cons.IH[OF rest, of "(conversations st, conversationsById st)" st]
      by simp
  next
    assume "find (\<lambda>conv. length (or_empty (conversationsById st (conv_id conv))) = 0)
              (conversations st) = None \<and> ?st' = with_new_conversation now st"
    then have new: "?st' = with_new_conversation now st" by blast
    have "create_calls calls (conversations (with_new_conversation now st),
             conversationsById (with_new_conversation now st)) (with_new_conversation now st)
            = with_new_conversation now st"
      by (rule create_calls_current_unchanged) (rule with_new_conversation_has_empty)
    then show ?thesis unfolding step new by (simp add: with_new_conversation_def)
  qed
qed

lemma initial_has_empty: "\<exists>c\<in>set (conversations initial_state). has_no_messages initial_state c"
  by (simp add: initial_state_def has_no_messages_def or_empty_def)

text \<open>
  Two calls with no render between them, from a state in which every conversation has a
  message: the second call still sees no empty conversation, and both append.
\<close>

lemma create_calls_without_render:
  "length (conversations
     (create_calls [(True, Some ''c1'', 1700000000000), (False, Some ''c1'', 1700000000001)]
        (conversations busy_state, conversationsById busy_state) busy_state)) = 4"
proof -
  have a: "\<not> (truthy (Some ''c1'') \<and> or_empty (conversationsById busy_state (the (Some ''c1''))) = [])"
    by (simp add: busy_state_def initial_state_def or_empty_def example_message_def)
  have b: "\<forall>c\<in>set (conversations busy_state). or_empty (conversationsById busy_state (conv_id c)) \<noteq> []"
    by (simp add: busy_state_def initial_state_def or_empty_def example_message_def)
  have l: "length (conversations busy_state) = 2"
    by (simp add: busy_state_def initial_state_def)
  show ?thesis
    by (simp add: createConversation_seen_appends[OF a b] with_new_conversation_def l)
qed

text \<open>
  C2 (as the code has it). The seed state itself holds two conversations with an empty
  message sequence, \<open>c1\<close> and \<open>c2\<close>, and no sequence of \<open>createConversation()\<close> calls
  changes it, whatever the active id and the clock of each call and whether or not
  React renders between the calls: two empty conversations exist at all times. The same
  holds from any state that the last render has shown and that has a conversation with
  an empty message sequence. A single call changes nothing when the conversations and
  messages it has seen hold a conversation without messages. When React renders before
  each call, a sequence of calls adds at most one conversation.
\<close>

theorem createConversation_calls_from_seed:
  "create_calls calls (conversations initial_state, conversationsById initial_state) initial_state
     = initial_state
   \<and> length (filter (has_no_messages initial_state) (conversations initial_state)) = 2
   \<and> ((\<exists>c\<in>set (conversations st). has_no_messages st c)
        \<longrightarrow> create_calls calls (conversations st, conversationsById st) st = st)
   \<and> ((\<exists>c\<in>set seenConversations. or_empty (seenById (conv_id c)) = [])
        \<longrightarrow> snd (createConversation_seen seenConversations seenById active now s) = s)
   \<and> ((\<forall>call\<in>set calls. fst call)
        \<longrightarrow> length (conversations (create_calls calls view st)) \<le> Suc (length (conversations st)))"
proof (intro conjI impI)
  show "create_calls calls (conversations initial_state, conversationsById initial_state)
          initial_state = initial_state"
    using initial_has_empty by (rule create_calls_current_unchanged)
  show "length (filter (has_no_messages initial_state) (conversations initial_state)) = 2"
    by (simp add: initial_state_def has_no_messages_def or_empty_def)
  show "create_calls calls (conversations st, conversationsById st) st = st"
    if "\<exists>c\<in>set (conversations st). has_no_messages st c"
    using that by (rule create_calls_current_unchanged)
  show "snd (createConversation_seen seenConversations seenById active now s) = s"
    if "\<exists>c\<in>set seenConversations. or_empty (seenById (conv_id c)) = []"
    using that by (rule createConversation_seen_unchanged)
  show "length (conversations (create_calls calls view st)) \<le> Suc (length (conversations st))"
    if "\<forall>call\<in>set calls. fst call"
    using that by (rule create_calls_rendered_length)
qed

theorem createConversation_calls_from_seed_witness:
  "(\<exists>c\<in>set (conversations fresh_state). has_no_messages fresh_state c)
   \<and> create_calls [(True, Some ''c1'', 1700000000001), (False, None, 1700000000002)]
         (conversations fresh_state, conversationsById fresh_state) fresh_state = fresh_state
   \<and> snd (createConversation_seen (conversations fresh_state) (conversationsById fresh_state)
            (Some ''c1'') 1700000000001 busy_state) = busy_state
   \<and> length (conversations
         (create_calls [(True, Some ''c1'', 1700000000001), (True, None, 1700000000002)]
            ([], Map.empty) busy_state)) \<le> 3"
proof -
  have e: "\<exists>c\<in>set (conversations fresh_state). has_no_messages fresh_state c"
    by (simp add: fresh_state_def with_new_conversation_def has_no_messages_def or_empty_def)
  have e': "\<exists>c\<in>set (conversations fresh_state).
              or_empty (conversationsById fresh_state (conv_id c)) = []"
    by (simp add: fresh_state_def with_new_conversation_def or_empty_def)
  have r: "\<forall>call\<in>set [(True, Some ''c1'', 1700000000001), (True, None, 1700000000002)]. fst call"
    by simp
  have l: "length (conversations busy_state) = 2"
    by (simp add: busy_state_def initial_state_def)
  have "length (conversations
         (create_calls [(True, Some ''c1'', 1700000000001), (True, None, 1700000000002)]
            ([], Map.empty) busy_state)) \<le> Suc (length (conversations busy_state))"
    using r
      createConversation_calls_from_seed[where calls = "[(True, Some ''c1'', 1700000000001), (True, None, 1700000000002)]"
           and st = busy_state and view = "([], Map.empty)"]
    by blast
  then have b: "length (conversations
         (create_calls [(True, Some ''c1'', 1700000000001), (True, None, 1700000000002)]
            ([], Map.empty) busy_state)) \<le> 3"
    using l by (simp del: create_calls.simps)
  show ?thesis
    using e e' b
      createConversation_calls_from_seed[where calls = "[(True, Some ''c1'', 1700000000001), (False, None, 1700000000002)]"
           and st = fresh_state and seenConversations = "conversations fresh_state"
           and seenById = "conversationsById fresh_state" and active = "Some ''c1''"
           and now = 1700000000001 and s = busy_state]
    by blast
qed

text \<open>
  C2 as stated fails: after a \<open>createConversation()\<close> call from the seed state (and
  before it) the conversations with an empty message sequence are two, not at most one.
\<close>

theorem createConversation_seed_two_empty_counterexample:
  "\<not> length (filter
        (has_no_messages
           (create_calls [(True, Some ''c1'', 1700000000000)]
              (conversations initial_state, conversationsById initial_state) initial_state))
        (conversations
           (create_calls [(True, Some ''c1'', 1700000000000)]
              (conversations initial_state, conversationsById initial_state) initial_state)))
      \<le> 1"
  by (simp add: createConversation_seen_def initial_state_def has_no_messages_def or_empty_def
        truthy_def)

lemma digit_char_inj:
  assumes "a < 10" "b < 10" "digit_char a = digit_char b"
  shows "a = b"
proof -
  have a: "a \<in> {0, 1, 2, 3, 4, 5, 6, 7, 8, 9}" using assms(1) by auto
  have b: "b \<in> {0, 1, 2, 3, 4, 5, 6, 7, 8, 9}" using assms(2) by auto
  show ?thesis using a b assms(3) by (auto simp: digit_char_def)
qed

lemma string_of_nat_nonempty [simp]: "string_of_nat n \<noteq> []" "[] \<noteq> string_of_nat n"
  by (subst string_of_nat.simps, simp)+

lemma string_of_nat_inj: "string_of_nat n = string_of_nat m \<Longrightarrow> n = m"
proof (induction n arbitrary: m rule: string_of_nat.induct)
  case (1 n)
  show ?case
  proof (cases "n < 10")
    case n: True
    show ?thesis
    proof (cases "m < 10")
      case True
      with n "1.prems" show ?thesis
        by (simp add: string_of_nat.simps[of n] string_of_nat.simps[of m] digit_char_inj)
    next
      case False
      with n "1.prems" show ?thesis
        by (simp add: string_of_nat.simps[of n] string_of_nat.simps[of m] string_of_nat_nonempty)
    qed
  next
    case n: False
    show ?thesis
    proof (cases "m < 10")
      case True
      with n "1.prems" show ?thesis
        by (simp add: string_of_nat.simps[of n] string_of_nat.simps[of m] string_of_nat_nonempty)
    next
      case False
      with n "1.prems" have eq: "string_of_nat (n div 10) = string_of_nat (m div 10)"
        and d: "digit_char (n mod 10) = digit_char (m mod 10)"
        by (simp_all add: string_of_nat.simps[of n] string_of_nat.simps[of m])
      from "1.IH"[OF n eq] have "n div 10 = m div 10" .
      moreover from d have "n mod 10 = m mod 10" by (simp add: digit_char_inj)
      ultimately show ?thesis by (metis div_mult_mod_eq)
    qed
  qed
qed

lemma new_conversation_id_inj: "(new_conversation_id now = new_conversation_id now') = (now = now')"
  by (auto simp: new_conversation_id_def dest: string_of_nat_inj)

text \<open>
  C4 (as the code has it). \<open>createConversation()\<close> returns the active id, and the state
  unchanged, when there is an active id with zero messages; otherwise, when some
  conversation of the list has zero messages, it returns the id of the first such
  conversation, and the state unchanged; otherwise it returns the id \<open>c-\<close> followed by
  the clock reading \<open>Date.now()\<close> and appends a conversation with that id and the
  placeholder title, setting the message sequence of that id to empty. Different clock
  readings give different ids; the id is not compared with the existing ones, so it is
  new to the list when no conversation carries it already, and then distinct ids stay
  distinct.
\<close>

theorem createConversation_three_cases:
  "(truthy a \<and> or_empty (conversationsById st (the a)) = []
      \<longrightarrow> createConversation a now st = (the a, st))
   \<and> (\<not> (truthy a \<and> or_empty (conversationsById st (the a)) = [])
        \<and> (\<exists>c\<in>set (conversations st). has_no_messages st c)
      \<longrightarrow> (\<exists>c\<in>set (conversations st). has_no_messages st c
             \<and> find (has_no_messages st) (conversations st) = Some c
             \<and> createConversation a now st = (conv_id c, st)))
   \<and> (\<not> (truthy a \<and> or_empty (conversationsById st (the a)) = [])
        \<and> (\<forall>c\<in>set (conversations st). \<not> has_no_messages st c)
      \<longrightarrow> createConversation a now st = (new_conversation_id now, with_new_conversation now st))
   \<and> ((new_conversation_id now = new_conversation_id now') = (now = now'))
   \<and> (distinct (map conv_id (conversations st))
        \<and> new_conversation_id now \<notin> conv_id ` set (conversations st)
      \<longrightarrow> distinct (map conv_id (conversations (with_new_conversation now st))))"
proof (intro conjI impI)
  assume "truthy a \<and> or_empty (conversationsById st (the a)) = []"
  then show "createConversation a now st = (the a, st)"
    by (simp add: createConversation_active_empty)
next
  assume h: "\<not> (truthy a \<and> or_empty (conversationsById st (the a)) = [])
             \<and> (\<exists>c\<in>set (conversations st). has_no_messages st c)"
  then obtain c where c: "find (has_no_messages st) (conversations st) = Some c"
    by (cases "find (has_no_messages st) (conversations st)") (auto simp: find_None_iff)
  then have "c \<in> set (conversations st)" "has_no_messages st c"
    by (auto simp: find_Some_iff)
  with c h show "\<exists>c\<in>set (conversations st). has_no_messages st c
             \<and> find (has_no_messages st) (conversations st) = Some c
             \<and> createConversation a now st = (conv_id c, st)"
    using createConversation_existing_empty[of a st c now] by blast
next
  assume h: "\<not> (truthy a \<and> or_empty (conversationsById st (the a)) = [])
             \<and> (\<forall>c\<in>set (conversations st). \<not> has_no_messages st c)"
  then have "find (has_no_messages st) (conversations st) = None"
    by (simp add: find_None_iff)
  with h show "createConversation a now st = (new_conversation_id now, with_new_conversation now st)"
    using createConversation_new[of a st now] by blast
next
  show "(new_conversation_id now = new_conversation_id now') = (now = now')"
    by (rule new_conversation_id_inj)
next
  assume "distinct (map conv_id (conversations st))
        \<and> new_conversation_id now \<notin> conv_id ` set (conversations st)"
  then show "distinct (map conv_id (conversations (with_new_conversation now st)))"
    by (simp add: with_new_conversation_def)
qed

theorem createConversation_three_cases_witness:
  "createConversation (Some ''c1'') 1700000000000 initial_state = (''c1'', initial_state)
   \<and> createConversation None 1700000000000 initial_state = (''c1'', initial_state)
   \<and> createConversation (Some ''c1'') 1700000000000 busy_state =
        (''c-1700000000000'', with_new_conversation 1700000000000 busy_state)
   \<and> distinct (map conv_id (conversations (with_new_conversation 1700000000000 busy_state)))"
proof -
  have e: "find (has_no_messages initial_state) (conversations initial_state)
             = Some \<lparr>conv_id = ''c1'', title = ''First conversation''\<rparr>"
    by (simp add: initial_state_def has_no_messages_def or_empty_def)
  have i: "new_conversation_id 1700000000000 = ''c-1700000000000''"
    by (simp add: new_conversation_id_def string_of_nat.simps digit_char_def)
  show ?thesis
    using createConversation_three_cases[of "Some ''c1''" initial_state 1700000000000 1700000000000]
      createConversation_three_cases[of None initial_state 1700000000000 1700000000000]
      createConversation_three_cases[of "Some ''c1''" busy_state 1700000000000 1700000000000]
    by (simp add: e i truthy_def or_empty_def initial_state_def busy_state_def
          has_no_messages_def)
qed

section \<open>Properties of sendMessage\<close>

lemma sendMessage_noop:
  "userText = [] \<or> trim userText = [] \<or> \<not> truthy a \<Longrightarrow> sendMessage sc sm a userText clk r clk' st = st"
  by (simp add: sendMessage_def)

lemma trim_nonempty: "trim userText \<noteq> [] \<Longrightarrow> userText \<noteq> []"
  by (auto simp: trim_def)

lemma sendMessage_conversationsById:
  assumes "truthy a" "trim userText \<noteq> []"
  shows "conversationsById (sendMessage sc sm a userText clk r clk' st) =
     (conversationsById st)(the a \<mapsto>
        or_empty (conversationsById st (the a)) @
          (case r of
             Rejected err \<Rightarrow> [userMessage_of clk userText]
           | Resolved m \<Rightarrow> [userMessage_of clk userText, m\<lparr>timestamp := Some (now_iso clk')\<rparr>]))"
  using assms trim_nonempty[OF assms(2)]
  by (simp add: sendMessage_def sendMessage_start_def sendMessage_settle_def Let_def or_empty_def
        split: reply.splits)

lemma sendMessage_conversations:
  assumes "truthy a" "trim userText \<noteq> []"
  shows "conversations (sendMessage sc sm a userText clk r clk' st) =
     (if or_empty (sm (the a)) = []
      then renameConversation (the a) (conversationCount sc sm (the a)) (conversations st)
      else conversations st)"
  using assms trim_nonempty[OF assms(2)]
  by (simp add: sendMessage_def sendMessage_start_def sendMessage_settle_def Let_def
        split: reply.splits)

lemma sendMessage_flags:
  assumes "truthy a" "trim userText \<noteq> []"
  shows "isLoading (sendMessage sc sm a userText clk r clk' st) = False"
    and "error (sendMessage sc sm a userText clk r clk' st) =
           (case r of Rejected err \<Rightarrow> Some err | Resolved m \<Rightarrow> None)"
    and "isHydrated (sendMessage sc sm a userText clk r clk' st) = isHydrated st"
  using assms trim_nonempty[OF assms(2)]
  by (simp_all add: sendMessage_def sendMessage_start_def sendMessage_settle_def Let_def
        split: reply.splits)

lemma renameConversation_length [simp]:
  "length (renameConversation a n cs) = length cs"
  by (simp add: renameConversation_def Let_def split: option.splits)

lemma renameConversation_ids [simp]:
  "map conv_id (renameConversation a n cs) = map conv_id cs"
  by (simp add: renameConversation_def Let_def split: option.splits)


lemma conversationCount_others:
  "conversationCount (conversations st) (conversationsById st) a = length (others_in_use st a)"
  by (simp add: conversationCount_def others_in_use_def)



lemma fresh_state_eval:
  "conversations fresh_state =
     [\<lparr>conv_id = ''c1'', title = ''First conversation''\<rparr>,
      \<lparr>conv_id = ''c2'', title = ''Second conversation''\<rparr>,
      \<lparr>conv_id = ''c-1700000000000'', title = ''New conversation''\<rparr>]"
  "conversationsById fresh_state =
     [''c1'' \<mapsto> [example_message], ''c2'' \<mapsto> [example_message], ''c-1700000000000'' \<mapsto> []]"
  by (simp_all add: fresh_state_def with_new_conversation_def busy_state_def initial_state_def
        new_conversation_id_def string_of_nat.simps digit_char_def)

lemma trim_hello: "trim ''  hello '' = ''hello''"
  by (simp add: trim_def is_space_def)

lemma busy_state_eval:
  "conversations busy_state =
     [\<lparr>conv_id = ''c1'', title = ''First conversation''\<rparr>,
      \<lparr>conv_id = ''c2'', title = ''Second conversation''\<rparr>]"
  "conversationsById busy_state = [''c1'' \<mapsto> [example_message], ''c2'' \<mapsto> [example_message]]"
  "isHydrated busy_state"
  by (simp_all add: busy_state_def initial_state_def)







text \<open>
  C8. For a call of \<open>sendMessage\<close> that passes its guard (non-blank text, an active
  id): if the reply service rejects, then afterwards \<open>error\<close> holds the rejection,
  \<open>isLoading\<close> is false, and the message sequence of the active conversation is the
  one before the call followed by the user message (of role \<open>user\<close>) and nothing else;
  if it resolves, \<open>isLoading\<close> is false as well and the sequence ends with the user
  message and the reply stamped with the time. Whatever the state is when the reply
  settles, a rejection leaves every message sequence as it is and loading is cleared.
\<close>

theorem sendMessage_reply_outcomes:
  assumes "truthy a" and "trim userText \<noteq> []"
  shows "error (sendMessage sc sm a userText clk (Rejected err) clk' st) = Some err
       \<and> isLoading (sendMessage sc sm a userText clk (Rejected err) clk' st) = False
       \<and> conversationsById (sendMessage sc sm a userText clk (Rejected err) clk' st) (the a)
           = Some (or_empty (conversationsById st (the a)) @ [userMessage_of clk userText])
       \<and> role (userMessage_of clk userText) = ''user''
       \<and> isLoading (sendMessage sc sm a userText clk (Resolved m) clk' st) = False
       \<and> conversationsById (sendMessage sc sm a userText clk (Resolved m) clk' st) (the a)
           = Some (or_empty (conversationsById st (the a))
                     @ [userMessage_of clk userText, m\<lparr>timestamp := Some (now_iso clk')\<rparr>])
       \<and> conversationsById (sendMessage_settle (the a) (Rejected err) clk' st') = conversationsById st'
       \<and> isLoading (sendMessage_settle (the a) r clk' st') = False"
  using assms
  by (simp add: sendMessage_flags sendMessage_conversationsById userMessage_of_def
        sendMessage_settle_def split: reply.splits)

theorem sendMessage_reply_outcomes_witness:
  "truthy (Some ''c-1700000000000'') \<and> trim ''  hello '' \<noteq> []
   \<and> error (sendMessage [] Map.empty (Some ''c-1700000000000'') ''  hello '' example_clock
              (Rejected ''offline'') later_clock fresh_state) = Some ''offline''
   \<and> isLoading (sendMessage [] Map.empty (Some ''c-1700000000000'') ''  hello '' example_clock
              (Rejected ''offline'') later_clock fresh_state) = False
   \<and> conversationsById (sendMessage [] Map.empty (Some ''c-1700000000000'') ''  hello ''
              example_clock (Rejected ''offline'') later_clock fresh_state) ''c-1700000000000''
       = Some [\<lparr>msg_id = ''user-1700000000500'', role = ''user'', content = ''hello'',
                timestamp = Some ''2023-11-14T22:13:20.500Z''\<rparr>]"
proof -
  have h1: "truthy (Some ''c-1700000000000'')" by (simp add: truthy_def)
  have h2: "trim ''  hello '' \<noteq> []" by (simp add: trim_hello)
  have u: "userMessage_of example_clock ''  hello '' =
             \<lparr>msg_id = ''user-1700000000500'', role = ''user'', content = ''hello'',
              timestamp = Some ''2023-11-14T22:13:20.500Z''\<rparr>"
    by (simp add: userMessage_of_def example_clock_def trim_hello string_of_nat.simps digit_char_def)
  show ?thesis
    using h1 h2 sendMessage_reply_outcomes[OF h1 h2, of "[]" Map.empty example_clock "''offline''" later_clock fresh_state]
    by (simp add: u fresh_state_eval or_empty_def)
qed

section \<open>Titles along a run of operations\<close>

lemma ordinal_not_New: "ordinal n \<noteq> ''New''"
proof (cases "n < 10")
  case True
  then have "n \<in> {0, 1, 2, 3, 4, 5, 6, 7, 8, 9}" by auto
  then show ?thesis by (auto simp: ordinal_def ordinals_def)
next
  case False
  have "string_of_nat (n + 1) @ ''th'' \<noteq> ''New''"
  proof
    assume "string_of_nat (n + 1) @ ''th'' = ''New''"
    then have "last (string_of_nat (n + 1) @ ''th'') = last ''New''" by (rule arg_cong)
    then show False by simp
  qed
  with False show ?thesis by (simp add: ordinal_def ordinals_def)
qed

lemma ordinal_title_not_placeholder: "ordinal n @ '' conversation'' \<noteq> ''New conversation''"
proof
  assume "ordinal n @ '' conversation'' = ''New conversation''"
  moreover have "''New conversation'' = ''New'' @ '' conversation''" by simp
  ultimately have "ordinal n @ '' conversation'' = ''New'' @ '' conversation''" by (rule trans)
  then have "ordinal n = ''New''" by (simp only: append_same_eq)
  then show False by (simp add: ordinal_not_New)
qed

lemma find_append_cases:
  "find P (xs @ ys) = (case find P xs of None \<Rightarrow> find P ys | Some x \<Rightarrow> Some x)"
  by (induction xs) auto

lemma find_map_ids:
  assumes "\<And>c. conv_id (f c) = conv_id c"
  shows "find (\<lambda>d. conv_id d = k) (map f cs) = map_option f (find (\<lambda>d. conv_id d = k) cs)"
  by (induction cs) (auto simp: assms)

lemma find_in_set: "c \<in> set cs \<Longrightarrow> \<exists>f. find (\<lambda>d. conv_id d = conv_id c) cs = Some f"
  by (cases "find (\<lambda>d. conv_id d = conv_id c) cs") (auto simp: find_None_iff)

lemma distinct_first_decides:
  assumes "distinct (map conv_id cs)"
  shows "first_decides cs"
  unfolding first_decides_def
proof (intro ballI impI allI)
  fix c f
  assume c: "c \<in> set cs" and t: "title c \<noteq> ''New conversation''"
    and f: "find (\<lambda>d. conv_id d = conv_id c) cs = Some f"
  from f have "f \<in> set cs" "conv_id f = conv_id c"
    by (auto simp: find_Some_iff)
  with c assms have "f = c" by (meson distinct_map inj_onD)
  with t show "title f \<noteq> ''New conversation''" by simp
qed

lemma first_decides_append:
  assumes "first_decides cs"
  shows "first_decides (cs @ [\<lparr>conv_id = k, title = ''New conversation''\<rparr>])"
  unfolding first_decides_def
proof (intro ballI impI allI)
  fix c f
  assume c: "c \<in> set (cs @ [\<lparr>conv_id = k, title = ''New conversation''\<rparr>])"
    and t: "title c \<noteq> ''New conversation''"
    and f: "find (\<lambda>d. conv_id d = conv_id c) (cs @ [\<lparr>conv_id = k, title = ''New conversation''\<rparr>]) = Some f"
  from c t have c': "c \<in> set cs" by auto
  then obtain g where g: "find (\<lambda>d. conv_id d = conv_id c) cs = Some g"
    using find_in_set by blast
  with f have "f = g" by (simp add: find_append_cases)
  with g c' t assms show "title f \<noteq> ''New conversation''"
    by (auto simp: first_decides_def)
qed

lemma renameConversation_cases:
  "renameConversation a n cs = cs \<or>
   ((\<exists>cur. find (\<lambda>c. conv_id c = a) cs = Some cur \<and> title cur = ''New conversation'') \<and>
    renameConversation a n cs =
      map (\<lambda>c. if conv_id c = a then c\<lparr>title := ordinal n @ '' conversation''\<rparr> else c) cs)"
  by (auto simp: renameConversation_def Let_def split: option.splits)

lemma first_decides_rename:
  assumes "first_decides cs"
  shows "first_decides (renameConversation a n cs)"
proof -
  let ?f = "\<lambda>c. if conv_id c = a then c\<lparr>title := ordinal n @ '' conversation''\<rparr> else c"
  have ids: "\<And>c. conv_id (?f c) = conv_id c" by simp
  have "first_decides (map ?f cs)"
    unfolding first_decides_def
  proof (intro ballI impI allI)
    fix c' f'
    assume c': "c' \<in> set (map ?f cs)" and t: "title c' \<noteq> ''New conversation''"
      and f': "find (\<lambda>d. conv_id d = conv_id c') (map ?f cs) = Some f'"
    from c' obtain c where c: "c \<in> set cs" "c' = ?f c" by auto
    from f' obtain g where g: "find (\<lambda>d. conv_id d = conv_id c') cs = Some g" "f' = ?f g"
      by (auto simp: find_map_ids[of ?f, OF ids])
    then have gid: "conv_id g = conv_id c'" by (auto simp: find_Some_iff)
    show "title f' \<noteq> ''New conversation''"
    proof (cases "conv_id c = a")
      case True
      with c gid g(2) show ?thesis by (simp add: ordinal_title_not_placeholder)
    next
      case False
      with c have same: "c' = c" by simp
      with False gid g(2) have "f' = g" by simp
      moreover from same t c g(1) assms have "title g \<noteq> ''New conversation''"
        by (auto simp: first_decides_def)
      ultimately show ?thesis by simp
    qed
  qed
  with renameConversation_cases[of a n cs] assms show ?thesis by auto
qed

lemma titles_kept_refl: "titles_kept cs cs"
  by (simp add: titles_kept_def)

lemma titles_kept_append: "titles_kept cs (cs @ [c])"
  by (simp add: titles_kept_def nth_append)

lemma titles_kept_rename:
  assumes "first_decides cs"
  shows "titles_kept cs (renameConversation a n cs)"
proof -
  from renameConversation_cases[of a n cs] show ?thesis
  proof
    assume "renameConversation a n cs = cs"
    then show ?thesis by (simp add: titles_kept_refl)
  next
    assume r: "(\<exists>cur. find (\<lambda>c. conv_id c = a) cs = Some cur \<and> title cur = ''New conversation'') \<and>
      renameConversation a n cs =
        map (\<lambda>c. if conv_id c = a then c\<lparr>title := ordinal n @ '' conversation''\<rparr> else c) cs"
    then obtain cur where cur: "find (\<lambda>c. conv_id c = a) cs = Some cur"
      "title cur = ''New conversation''" by blast
    have ph: "title (cs ! i) = ''New conversation''" if "i < length cs" "conv_id (cs ! i) = a" for i
    proof (rule ccontr)
      assume "title (cs ! i) \<noteq> ''New conversation''"
      moreover have "cs ! i \<in> set cs" using that by simp
      ultimately have "title cur \<noteq> ''New conversation''"
        using assms cur(1) that(2) by (auto simp: first_decides_def)
      with cur(2) show False by simp
    qed
    show ?thesis using r ph by (auto simp: titles_kept_def)
  qed
qed

lemma titles_kept_trans:
  assumes "titles_kept cs cs'" "titles_kept cs' cs''"
  shows "titles_kept cs cs''"
  unfolding titles_kept_def
proof (intro conjI allI impI)
  show "length cs \<le> length cs''" using assms by (simp add: titles_kept_def)
next
  fix i assume i: "i < length cs"
  then have i': "i < length cs'" using assms(1) by (simp add: titles_kept_def)
  show "conv_id (cs'' ! i) = conv_id (cs ! i)"
    using assms i i' by (simp add: titles_kept_def)
next
  fix i assume i: "i < length cs" and t: "title (cs ! i) \<noteq> ''New conversation''"
  then have i': "i < length cs'" using assms(1) by (simp add: titles_kept_def)
  show "title (cs'' ! i) = title (cs ! i)"
    using assms i i' t by (simp add: titles_kept_def)
next
  fix i assume i: "i < length cs" and t: "title (cs'' ! i) \<noteq> title (cs ! i)"
  then have i': "i < length cs'" using assms(1) by (simp add: titles_kept_def)
  show "\<exists>n. title (cs'' ! i) = ordinal n @ '' conversation''"
  proof (cases "title (cs' ! i) = title (cs ! i)")
    case True
    with t have "title (cs'' ! i) \<noteq> title (cs' ! i)" by simp
    with assms(2) i' show ?thesis by (simp add: titles_kept_def)
  next
    case False
    with assms(1) i obtain n where n: "title (cs' ! i) = ordinal n @ '' conversation''"
      by (auto simp: titles_kept_def)
    then have "title (cs' ! i) \<noteq> ''New conversation''"
      by (simp add: ordinal_title_not_placeholder)
    with assms(2) i' have "title (cs'' ! i) = title (cs' ! i)" by (simp add: titles_kept_def)
    with n show ?thesis by auto
  qed
qed

text \<open>What one operation does to the metadata list.\<close>

lemma apply_op_conversations:
  "conversations (apply_op op st) = conversations st
   \<or> (\<exists>now. conversations (apply_op op st) =
         conversations st @ [\<lparr>conv_id = new_conversation_id now, title = ''New conversation''\<rparr>])
   \<or> (\<exists>sc sm a userText clk r clk' n.
         op = SendMessage sc sm (Some a) userText clk r clk' \<and> or_empty (sm a) = [] \<and>
         conversations (apply_op op st) = renameConversation a n (conversations st))"
proof (cases op)
  case (CreateConversation a now)
  with createConversation_state[of a now st] show ?thesis
    by (auto simp: with_new_conversation_def)
next
  case (SendMessage sc sm a userText clk r clk')
  show ?thesis
  proof (cases "truthy a \<and> trim userText \<noteq> []")
    case True
    then obtain x where x: "a = Some x" by (cases a) (auto simp: truthy_def)
    with True SendMessage show ?thesis
      using sendMessage_conversations[of a userText sc sm clk r clk' st] by auto
  next
    case False
    with SendMessage show ?thesis by (auto simp: sendMessage_def)
  qed
next
  case (ClearConversation cid)
  then show ?thesis by (simp add: clearConversation_def)
qed

lemma apply_op_first_decides:
  "first_decides (conversations st) \<Longrightarrow> first_decides (conversations (apply_op op st))"
  using apply_op_conversations[of op st]
  by (auto simp: first_decides_append first_decides_rename)

lemma apply_op_titles_kept:
  "first_decides (conversations st) \<Longrightarrow>
   titles_kept (conversations st) (conversations (apply_op op st))"
  using apply_op_conversations[of op st]
  by (auto simp: titles_kept_refl titles_kept_append titles_kept_rename)

lemma run_Cons: "run (op # ops) st = run ops (apply_op op st)"
  by (simp add: run_def)

lemma run_append: "run (ops @ later) st = run later (run ops st)"
  by (simp add: run_def)

lemma run_first_decides:
  "first_decides (conversations st) \<Longrightarrow> first_decides (conversations (run ops st))"
  by (induction ops arbitrary: st) (simp_all add: run_def apply_op_first_decides)

lemma run_titles_kept:
  "first_decides (conversations st) \<Longrightarrow> titles_kept (conversations st) (conversations (run ops st))"
proof (induction ops arbitrary: st)
  case Nil
  show ?case by (simp add: run_def titles_kept_refl)
next
  case (Cons op ops)
  have "titles_kept (conversations (apply_op op st)) (conversations (run ops (apply_op op st)))"
    using Cons.prems by (intro Cons.IH apply_op_first_decides)
  with apply_op_titles_kept[OF Cons.prems, of op] show ?case
    unfolding run_Cons by (rule titles_kept_trans)
qed

lemma rename_changes_only_active:
  assumes "i < length cs" and "title (renameConversation a n cs ! i) \<noteq> title (cs ! i)"
  shows "conv_id (cs ! i) = a"
  using assms renameConversation_cases[of a n cs] by (auto split: if_splits)

lemma apply_op_title_change:
  assumes "i < length (conversations st)"
    and "title (conversations (apply_op op st) ! i) \<noteq> title (conversations st ! i)"
  shows "\<exists>sc sm userText clk r clk'.
           op = SendMessage sc sm (Some (conv_id (conversations st ! i))) userText clk r clk'
           \<and> or_empty (sm (conv_id (conversations st ! i))) = []"
  using apply_op_conversations[of op st] assms
  by (auto simp: nth_append dest: rename_changes_only_active)

lemma apply_op_new_title:
  assumes "length (conversations st) \<le> j" and "j < length (conversations (apply_op op st))"
  shows "title (conversations (apply_op op st) ! j) = ''New conversation''"
  using apply_op_conversations[of op st] assms
  by (auto simp: nth_append)

lemma first_send_eval:
  "conversations (apply_op first_send fresh_state) =
     [\<lparr>conv_id = ''c1'', title = ''First conversation''\<rparr>,
      \<lparr>conv_id = ''c2'', title = ''Second conversation''\<rparr>,
      \<lparr>conv_id = ''c-1700000000000'', title = ''Third conversation''\<rparr>]"
proof -
  have h1: "truthy (Some ''c-1700000000000'')" by (simp add: truthy_def)
  have h2: "trim ''  hello '' \<noteq> []" by (simp add: trim_hello)
  have n: "conversationCount (conversations fresh_state) (conversationsById fresh_state)
             ''c-1700000000000'' = 2"
    by (simp add: conversationCount_def fresh_state_eval or_empty_def example_message_def)
  have o: "ordinal 2 = ''Third''" by (simp add: ordinal_def ordinals_def)
  show ?thesis
    unfolding first_send_def apply_op.simps
    by (simp add: sendMessage_conversations[OF h1 h2] n)
       (simp add: fresh_state_eval or_empty_def renameConversation_def o)
qed

text \<open>
  C5 (as the code has it). Take a store whose conversation ids were distinct at the
  start (as in the seed state) and that has since run any \<open>createConversation\<close>,
  \<open>sendMessage\<close> and \<open>clearConversation\<close> calls, and a conversation of its list. Along any
  further run of such calls the conversation stays at its place with its id; a title
  that is not the placeholder stays the same; a title that has changed was the
  placeholder, is now an ordinal name, which is not the placeholder, and stays the same
  in whatever follows: it changes at most once. The one call that changes it is a
  \<open>sendMessage\<close> with this conversation active whose callback saw it without messages.
  A conversation that a call adds has the placeholder title. The two seed conversations
  start as \<open>First conversation\<close> and \<open>Second conversation\<close>.
\<close>

theorem title_renamed_at_most_once:
  assumes "distinct (map conv_id (conversations st0))"
    and "st = run ops0 st0"
    and "i < length (conversations st)"
  shows "length (conversations st) \<le> length (conversations (run ops st))
       \<and> conv_id (conversations (run ops st) ! i) = conv_id (conversations st ! i)
       \<and> (title (conversations st ! i) \<noteq> ''New conversation''
            \<longrightarrow> title (conversations (run ops st) ! i) = title (conversations st ! i))
       \<and> (title (conversations (run ops st) ! i) \<noteq> title (conversations st ! i)
            \<longrightarrow> title (conversations st ! i) = ''New conversation''
              \<and> (\<exists>n. title (conversations (run ops st) ! i) = ordinal n @ '' conversation'')
              \<and> title (conversations (run ops st) ! i) \<noteq> ''New conversation''
              \<and> title (conversations (run (ops @ later) st) ! i)
                  = title (conversations (run ops st) ! i))
       \<and> (title (conversations (apply_op op st) ! i) \<noteq> title (conversations st ! i)
            \<longrightarrow> (\<exists>sc sm userText clk r clk'.
                   op = SendMessage sc sm (Some (conv_id (conversations st ! i))) userText clk r clk'
                   \<and> or_empty (sm (conv_id (conversations st ! i))) = []))
       \<and> (\<forall>j. length (conversations st) \<le> j \<and> j < length (conversations (apply_op op st))
            \<longrightarrow> title (conversations (apply_op op st) ! j) = ''New conversation'')
       \<and> map title (conversations initial_state) = [''First conversation'', ''Second conversation'']"
proof -
  have fd0: "first_decides (conversations st0)"
    using assms(1) by (rule distinct_first_decides)
  have fd: "first_decides (conversations st)"
    unfolding assms(2) using fd0 by (rule run_first_decides)
  have fd': "first_decides (conversations (run ops st))"
    using fd by (rule run_first_decides)
  have k: "titles_kept (conversations st) (conversations (run ops st))"
    using fd by (rule run_titles_kept)
  have k': "titles_kept (conversations (run ops st)) (conversations (run (ops @ later) st))"
    unfolding run_append using fd' by (rule run_titles_kept)
  have i': "i < length (conversations (run ops st))"
    using k assms(3) by (simp add: titles_kept_def)
  have len: "length (conversations st) \<le> length (conversations (run ops st))"
    using k by (simp add: titles_kept_def)
  have ids: "conv_id (conversations (run ops st) ! i) = conv_id (conversations st ! i)"
    using k assms(3) by (simp add: titles_kept_def)
  have keep: "title (conversations st ! i) \<noteq> ''New conversation''
            \<longrightarrow> title (conversations (run ops st) ! i) = title (conversations st ! i)"
    using k assms(3) by (simp add: titles_kept_def)
  have once: "title (conversations (run ops st) ! i) \<noteq> title (conversations st ! i)
            \<longrightarrow> title (conversations st ! i) = ''New conversation''
              \<and> (\<exists>n. title (conversations (run ops st) ! i) = ordinal n @ '' conversation'')
              \<and> title (conversations (run ops st) ! i) \<noteq> ''New conversation''
              \<and> title (conversations (run (ops @ later) st) ! i)
                  = title (conversations (run ops st) ! i)"
  proof
    assume ch: "title (conversations (run ops st) ! i) \<noteq> title (conversations st ! i)"
    with keep have a: "title (conversations st ! i) = ''New conversation''" by blast
    from ch k assms(3) obtain n
      where n: "title (conversations (run ops st) ! i) = ordinal n @ '' conversation''"
      by (auto simp: titles_kept_def)
    then have b: "title (conversations (run ops st) ! i) \<noteq> ''New conversation''"
      by (simp add: ordinal_title_not_placeholder)
    with k' i' have c: "title (conversations (run (ops @ later) st) ! i)
                  = title (conversations (run ops st) ! i)"
      by (simp add: titles_kept_def)
    from a n b c show "title (conversations st ! i) = ''New conversation''
              \<and> (\<exists>n. title (conversations (run ops st) ! i) = ordinal n @ '' conversation'')
              \<and> title (conversations (run ops st) ! i) \<noteq> ''New conversation''
              \<and> title (conversations (run (ops @ later) st) ! i)
                  = title (conversations (run ops st) ! i)"
      by blast
  qed
  have step: "title (conversations (apply_op op st) ! i) \<noteq> title (conversations st ! i)
            \<longrightarrow> (\<exists>sc sm userText clk r clk'.
                   op = SendMessage sc sm (Some (conv_id (conversations st ! i))) userText clk r clk'
                   \<and> or_empty (sm (conv_id (conversations st ! i))) = [])"
    using apply_op_title_change[OF assms(3)] by blast
  have new: "\<forall>j. length (conversations st) \<le> j \<and> j < length (conversations (apply_op op st))
            \<longrightarrow> title (conversations (apply_op op st) ! j) = ''New conversation''"
    using apply_op_new_title by blast
  have seed: "map title (conversations initial_state) = [''First conversation'', ''Second conversation'']"
    by (simp add: initial_state_def)
  from len ids keep once step new seed show ?thesis by blast
qed

theorem title_renamed_at_most_once_witness:
  "distinct (map conv_id (conversations fresh_state))
   \<and> 2 < length (conversations fresh_state)
   \<and> title (conversations fresh_state ! 2) = ''New conversation''
   \<and> title (conversations (run [first_send] fresh_state) ! 2) = ''Third conversation''
   \<and> title (conversations (run ([first_send] @ [first_send, ClearConversation (Some ''c-1700000000000'')])
                              fresh_state) ! 2) = ''Third conversation''"
proof -
  have d: "distinct (map conv_id (conversations fresh_state))"
    by (simp add: fresh_state_eval)
  have r: "fresh_state = run [] fresh_state" by (simp add: run_def)
  have i: "2 < length (conversations fresh_state)" by (simp add: fresh_state_eval)
  have t: "title (conversations (run [first_send] fresh_state) ! 2) = ''Third conversation''"
    by (simp add: run_def first_send_eval)
  have p: "title (conversations fresh_state ! 2) = ''New conversation''"
    by (simp add: fresh_state_eval)
  from title_renamed_at_most_once[OF d r i, of "[first_send]" "[first_send, ClearConversation (Some ''c-1700000000000'')]"]
    d i t p
  show ?thesis by simp
qed

text \<open>
  C5 as stated fails: the title of the seed conversation \<open>c1\<close> does not start as the
  placeholder.
\<close>

theorem seed_title_not_placeholder_counterexample:
  "title (conversations initial_state ! 0) = ''First conversation''
   \<and> title (conversations initial_state ! 0) \<noteq> ''New conversation''"
  by (simp add: initial_state_def)

section \<open>A clock that reads the same value twice\<close>

text \<open>
  C4 as stated fails. From \<open>busy_state\<close>, \<open>createConversation()\<close> at clock reading
  1700000000000 creates the conversation \<open>c-1700000000000\<close>; a message is sent in it;
  \<open>createConversation()\<close> is called again and the clock reads 1700000000000 again. The
  id returned by the second call is not fresh: it is the id of the first call. The list
  then holds two conversations of that id, and the message stored under it is gone.
\<close>

theorem createConversation_id_clash_counterexample:
  "fst (createConversation (Some ''c2'') 1700000000000 busy_state) = ''c-1700000000000''
   \<and> fst (createConversation (Some ''c-1700000000000'') 1700000000000
          (run [CreateConversation (Some ''c2'') 1700000000000, first_send] busy_state))
       = ''c-1700000000000''
   \<and> conversations
        (run [CreateConversation (Some ''c2'') 1700000000000, first_send,
              CreateConversation (Some ''c-1700000000000'') 1700000000000] busy_state)
       = [\<lparr>conv_id = ''c1'', title = ''First conversation''\<rparr>,
          \<lparr>conv_id = ''c2'', title = ''Second conversation''\<rparr>,
          \<lparr>conv_id = ''c-1700000000000'', title = ''Third conversation''\<rparr>,
          \<lparr>conv_id = ''c-1700000000000'', title = ''New conversation''\<rparr>]
   \<and> conversationsById
        (run [CreateConversation (Some ''c2'') 1700000000000, first_send] busy_state)
        ''c-1700000000000'' = Some [userMessage_of example_clock ''  hello '']
   \<and> conversationsById
        (run [CreateConversation (Some ''c2'') 1700000000000, first_send,
              CreateConversation (Some ''c-1700000000000'') 1700000000000] busy_state)
        ''c-1700000000000'' = Some []"
proof -
  have i: "string_of_nat 1700000000000 = ''1700000000000''"
    by (simp add: string_of_nat.simps digit_char_def)
  have c1: "createConversation (Some ''c2'') 1700000000000 busy_state
              = (''c-1700000000000'', fresh_state)"
    by (simp add: createConversation_def busy_state_eval truthy_def or_empty_def Let_def i
          fresh_state_def with_new_conversation_def new_conversation_id_def)
  have h1: "truthy (Some ''c-1700000000000'')" by (simp add: truthy_def)
  have h2: "trim ''  hello '' \<noteq> []" by (simp add: trim_hello)
  have m: "conversationsById (apply_op first_send fresh_state) ''c-1700000000000''
             = Some [userMessage_of example_clock ''  hello '']"
    unfolding first_send_def apply_op.simps
    by (simp add: sendMessage_conversationsById[OF h1 h2] fresh_state_eval or_empty_def)
  have m1: "conversationsById (apply_op first_send fresh_state) ''c1'' = Some [example_message]"
    unfolding first_send_def apply_op.simps
    by (simp add: sendMessage_conversationsById[OF h1 h2] fresh_state_eval or_empty_def)
  have m2: "conversationsById (apply_op first_send fresh_state) ''c2'' = Some [example_message]"
    unfolding first_send_def apply_op.simps
    by (simp add: sendMessage_conversationsById[OF h1 h2] fresh_state_eval or_empty_def)
  have c2: "createConversation (Some ''c-1700000000000'') 1700000000000
              (apply_op first_send fresh_state)
            = (''c-1700000000000'',
               with_new_conversation 1700000000000 (apply_op first_send fresh_state))"
    by (simp add: createConversation_def truthy_def or_empty_def Let_def i m m1 m2
          first_send_eval example_message_def
          with_new_conversation_def new_conversation_id_def)
  show ?thesis
    by (simp add: run_def c1 c2 m first_send_eval)
       (simp add: with_new_conversation_def new_conversation_id_def i first_send_eval)
qed

section \<open>The ids of the metadata list and the keys of the message map\<close>

lemma keys_match_with_new_conversation:
  "keys_match st \<Longrightarrow> keys_match (with_new_conversation now st)"
  by (simp add: keys_match_def with_new_conversation_def)

lemma keys_match_create:
  assumes "keys_match st"
  shows "keys_match (snd (createConversation a now st))"
proof -
  from createConversation_state[of a now st]
  have "snd (createConversation a now st) = st
        \<or> snd (createConversation a now st) = with_new_conversation now st" by blast
  then show ?thesis
    using assms keys_match_with_new_conversation[OF assms, of now] by auto
qed

lemma set_rename_ids: "conv_id ` set (renameConversation a n cs) = conv_id ` set cs"
proof -
  have "set (map conv_id (renameConversation a n cs)) = set (map conv_id cs)" by simp
  then show ?thesis by (simp only: set_map)
qed

lemma keys_match_send:
  assumes "keys_match st" and "truthy a \<longrightarrow> the a \<in> conv_id ` set (conversations st)"
  shows "keys_match (sendMessage sc sm a userText clk r clk' st)"
proof (cases "truthy a \<and> trim userText \<noteq> []")
  case True
  then have "conv_id ` set (conversations (sendMessage sc sm a userText clk r clk' st))
               = conv_id ` set (conversations st)"
    by (simp add: sendMessage_conversations set_rename_ids)
  moreover have "dom (conversationsById (sendMessage sc sm a userText clk r clk' st))
               = insert (the a) (dom (conversationsById st))"
    using True by (simp add: sendMessage_conversationsById)
  ultimately show ?thesis using assms True by (auto simp: keys_match_def)
next
  case False
  then show ?thesis using assms(1) by (auto simp: sendMessage_def)
qed

lemma keys_match_clear:
  assumes "keys_match st" and "truthy cid \<longrightarrow> the cid \<in> conv_id ` set (conversations st)"
  shows "keys_match (clearConversation cid st)"
  using assms by (auto simp: keys_match_def clearConversation_def)

lemma keys_match_clear_absent:
  assumes "keys_match st" and "truthy cid" and "the cid \<notin> conv_id ` set (conversations st)"
  shows "\<not> keys_match (clearConversation cid st)"
  using assms by (auto simp: keys_match_def clearConversation_def)

lemma keys_match_hydrate:
  assumes "keys_match st"
    and "\<forall>raw p. item ls = Some raw \<and> JSON_parse env raw = Some (PObject p) \<longrightarrow> snapshot_keys_match p"
  shows "keys_match (hydrate env ls st)"
proof -
  have flag: "keys_match (s\<lparr>isHydrated := True\<rparr>) = keys_match s" for s
    by (simp add: keys_match_def)
  have "case hydrate_try env ls st of Inl e \<Rightarrow> True | Inr st' \<Rightarrow> keys_match st'"
    using assms
    by (auto simp: hydrate_try_def getItem_def truthy_def keys_match_def snapshot_keys_match_def
          split: option.splits parsed.splits sum.splits prod.splits)
  then show ?thesis using assms(1)
    by (auto simp: hydrate_def flag split: sum.splits)
qed

lemma keys_match_initial: "keys_match initial_state"
  by (simp add: keys_match_def initial_state_def insert_commute)

lemma example_parse:
  "JSON_parse example_json stored_text = Some (PObject (payload_of busy_state))"
  "JSON_stringify example_json p = stored_text"
  "stored_text \<noteq> []"
  by (simp_all add: example_json_def stored_text_def)

text \<open>
  C3 (as the code has it). The seed state has matching key sets. From a state with
  matching key sets, \<open>createConversation\<close> always gives one; \<open>sendMessage\<close> gives one
  when the active id, if there is one, is in the metadata list; \<open>clearConversation\<close>
  gives one when its id, if truthy, is in the metadata list, and gives a message map
  with a key that the metadata list lacks when its id is truthy and absent from the
  list; \<open>hydrate\<close> gives one when the stored payload, if it parses to an object, has
  matching key sets itself.
\<close>

theorem keys_match_preserved:
  assumes "keys_match st"
  shows "keys_match initial_state
       \<and> keys_match (snd (createConversation a now st))
       \<and> ((truthy a \<longrightarrow> the a \<in> conv_id ` set (conversations st))
            \<longrightarrow> keys_match (sendMessage sc sm a userText clk r clk' st))
       \<and> ((truthy cid \<longrightarrow> the cid \<in> conv_id ` set (conversations st))
            \<longrightarrow> keys_match (clearConversation cid st))
       \<and> (truthy cid \<and> the cid \<notin> conv_id ` set (conversations st)
            \<longrightarrow> \<not> keys_match (clearConversation cid st))
       \<and> ((\<forall>raw p. item ls = Some raw \<and> JSON_parse env raw = Some (PObject p)
                      \<longrightarrow> snapshot_keys_match p)
            \<longrightarrow> keys_match (hydrate env ls st))"
proof (intro conjI impI)
  show "keys_match initial_state" by (rule keys_match_initial)
  show "keys_match (snd (createConversation a now st))"
    using assms by (rule keys_match_create)
  show "keys_match (sendMessage sc sm a userText clk r clk' st)"
    if "truthy a \<longrightarrow> the a \<in> conv_id ` set (conversations st)"
    using assms that by (rule keys_match_send)
  show "keys_match (clearConversation cid st)"
    if "truthy cid \<longrightarrow> the cid \<in> conv_id ` set (conversations st)"
    using assms that by (rule keys_match_clear)
  show "\<not> keys_match (clearConversation cid st)"
    if "truthy cid \<and> the cid \<notin> conv_id ` set (conversations st)"
    using assms that keys_match_clear_absent by blast
  show "keys_match (hydrate env ls st)"
    if "\<forall>raw p. item ls = Some raw \<and> JSON_parse env raw = Some (PObject p)
                      \<longrightarrow> snapshot_keys_match p"
    using assms that by (rule keys_match_hydrate)
qed

theorem keys_match_preserved_witness:
  "keys_match initial_state
   \<and> keys_match (snd (createConversation (Some ''c1'') 1700000000000 initial_state))
   \<and> keys_match (sendMessage [] Map.empty (Some ''c1'') ''  hello '' example_clock
                    (Rejected ''offline'') later_clock initial_state)
   \<and> keys_match (clearConversation (Some ''c2'') initial_state)
   \<and> \<not> keys_match (clearConversation (Some ''c9'') initial_state)
   \<and> keys_match (hydrate example_json example_storage initial_state)"
proof -
  have k: "keys_match initial_state"
    by (simp add: keys_match_def initial_state_def insert_commute)
  have a: "truthy (Some ''c1'') \<longrightarrow> the (Some ''c1'') \<in> conv_id ` set (conversations initial_state)"
    by (simp add: initial_state_def)
  have b: "truthy (Some ''c2'') \<longrightarrow> the (Some ''c2'') \<in> conv_id ` set (conversations initial_state)"
    by (simp add: initial_state_def)
  have c: "truthy (Some ''c9'') \<and> the (Some ''c9'') \<notin> conv_id ` set (conversations initial_state)"
    by (simp add: initial_state_def truthy_def)
  have s: "snapshot_keys_match (payload_of busy_state)"
    by (simp add: snapshot_keys_match_def payload_of_def busy_state_eval insert_commute)
  have d: "\<forall>raw p. item example_storage = Some raw \<and> JSON_parse example_json raw = Some (PObject p)
             \<longrightarrow> snapshot_keys_match p"
    using s by (auto simp: example_storage_def example_parse)
  show ?thesis
    using a b c d
      keys_match_preserved[OF k, of "Some ''c1''" 1700000000000 "[]" Map.empty "''  hello ''" example_clock
        "Rejected ''offline''" later_clock "Some ''c2''" example_storage example_json]
      keys_match_preserved[OF k, of "Some ''c1''" 1700000000000 "[]" Map.empty "''  hello ''" example_clock
        "Rejected ''offline''" later_clock "Some ''c9''" example_storage example_json]
    by blast
qed

text \<open>
  C3 as stated fails: \<open>clearConversation\<close> with a truthy id that the metadata list does
  not contain adds a key to the message map.
\<close>

theorem clearConversation_unknown_id_counterexample:
  "keys_match initial_state \<and> truthy (Some ''c9'')
   \<and> \<not> keys_match (clearConversation (Some ''c9'') initial_state)"
proof -
  have a: "''c9'' \<in> dom (conversationsById (clearConversation (Some ''c9'') initial_state))"
    by (simp add: clearConversation_def truthy_def)
  have b: "''c9'' \<notin> conv_id ` set (conversations (clearConversation (Some ''c9'') initial_state))"
    by (simp add: clearConversation_def truthy_def initial_state_def)
  have "\<not> keys_match (clearConversation (Some ''c9'') initial_state)"
    unfolding keys_match_def using a b by (metis)
  then show ?thesis
    by (simp add: keys_match_def initial_state_def truthy_def insert_commute)
qed

section \<open>Properties of hydration and persistence\<close>

lemma hydrate_flag: "isHydrated (hydrate env ls st) = True"
  by (simp add: hydrate_def)

lemma hydrate_keeps:
  assumes "read_fails ls \<or> \<not> truthy (item ls)
           \<or> JSON_parse env (the (item ls)) = None
           \<or> JSON_parse env (the (item ls)) = Some PNull
           \<or> JSON_parse env (the (item ls)) = Some PNonObject
           \<or> (\<exists>p. JSON_parse env (the (item ls)) = Some (PObject p)
                 \<and> (version p \<noteq> JNum 1 \<or> snap_conversations p = None
                      \<or> snap_conversationsById p = None))"
  shows "hydrate env ls st = st\<lparr>isHydrated := True\<rparr>"
  using assms
  by (auto simp: hydrate_def hydrate_try_def getItem_def STORAGE_VERSION_def
        split: option.splits)

lemma hydrate_replaces:
  assumes "\<not> read_fails ls" "truthy (item ls)"
    and "JSON_parse env (the (item ls)) = Some (PObject p)"
    and "version p = JNum 1"
    and "snap_conversations p = Some cs" "snap_conversationsById p = Some byId"
  shows "hydrate env ls st = st\<lparr>conversations := cs, conversationsById := byId, isHydrated := True\<rparr>"
  using assms
  by (simp add: hydrate_def hydrate_try_def getItem_def STORAGE_VERSION_def)

text \<open>
  C7. \<open>hydrate\<close> is total: what its \<open>try\<close> block throws is caught, and the hydrated
  flag is true afterwards in every case. The state, the seed state in particular, is
  otherwise unchanged when reading the store fails, when no value (or an empty one) is
  stored, when the stored value does not parse, when it parses to \<open>null\<close> or to
  something that is no object, when the version of the parsed object is not 1, or when
  \<open>conversations\<close> or \<open>conversationsById\<close> is missing. When the stored value parses to an
  object of version 1 with both fields, the conversation list and the message map
  become the stored ones, and nothing else changes.
\<close>

theorem hydrate_outcomes:
  "isHydrated (hydrate env ls st) = True
   \<and> (read_fails ls \<or> \<not> truthy (item ls)
        \<or> JSON_parse env (the (item ls)) = None
        \<or> JSON_parse env (the (item ls)) = Some PNull
        \<or> JSON_parse env (the (item ls)) = Some PNonObject
        \<or> (\<exists>p. JSON_parse env (the (item ls)) = Some (PObject p)
              \<and> (version p \<noteq> JNum 1 \<or> snap_conversations p = None
                   \<or> snap_conversationsById p = None))
       \<longrightarrow> hydrate env ls initial_state = initial_state\<lparr>isHydrated := True\<rparr>
         \<and> hydrate env ls st = st\<lparr>isHydrated := True\<rparr>)
   \<and> (\<not> read_fails ls \<and> truthy (item ls)
        \<and> JSON_parse env (the (item ls)) = Some (PObject p)
        \<and> version p = JNum 1
        \<and> snap_conversations p = Some cs \<and> snap_conversationsById p = Some byId
       \<longrightarrow> hydrate env ls initial_state
             = initial_state\<lparr>conversations := cs, conversationsById := byId, isHydrated := True\<rparr>
         \<and> hydrate env ls st
             = st\<lparr>conversations := cs, conversationsById := byId, isHydrated := True\<rparr>)"
  using hydrate_flag hydrate_keeps hydrate_replaces by blast

theorem hydrate_outcomes_witness:
  "hydrate example_json \<lparr>item = None, read_fails = False, write_fails = False\<rparr> initial_state
     = initial_state\<lparr>isHydrated := True\<rparr>
   \<and> hydrate example_json \<lparr>item = Some ''not json'', read_fails = False, write_fails = False\<rparr>
       initial_state = initial_state\<lparr>isHydrated := True\<rparr>
   \<and> hydrate example_json example_storage initial_state
     = initial_state\<lparr>conversations := conversations busy_state,
                     conversationsById := conversationsById busy_state, isHydrated := True\<rparr>"
proof -
  have a: "\<not> truthy (item \<lparr>item = None, read_fails = False, write_fails = False\<rparr>)"
    by (simp add: truthy_def)
  have b: "JSON_parse example_json
             (the (item \<lparr>item = Some ''not json'', read_fails = False, write_fails = False\<rparr>)) = None"
    by (simp add: example_json_def stored_text_def)
  have c: "\<not> read_fails example_storage \<and> truthy (item example_storage)
        \<and> JSON_parse example_json (the (item example_storage)) = Some (PObject (payload_of busy_state))
        \<and> version (payload_of busy_state) = JNum 1
        \<and> snap_conversations (payload_of busy_state) = Some (conversations busy_state)
        \<and> snap_conversationsById (payload_of busy_state) = Some (conversationsById busy_state)"
    by (simp add: example_storage_def example_parse truthy_def payload_of_def STORAGE_VERSION_def)
  show ?thesis
    using a b c
      hydrate_outcomes[of example_json "\<lparr>item = None, read_fails = False, write_fails = False\<rparr>" initial_state]
      hydrate_outcomes[of example_json "\<lparr>item = Some ''not json'', read_fails = False, write_fails = False\<rparr>"
            initial_state]
      hydrate_outcomes[of example_json example_storage initial_state "payload_of busy_state"
            "conversations busy_state" "conversationsById busy_state"]
    by blast
qed

lemma persist_skipped: "\<not> isHydrated st \<Longrightarrow> persist env (st, ls) = (st, ls)"
  by (simp add: persist_def)

lemma persist_writes:
  "isHydrated st \<Longrightarrow> \<not> write_fails ls \<Longrightarrow>
   persist env (st, ls) = (st, ls\<lparr>item := Some (JSON_stringify env (payload_of st))\<rparr>)"
  by (simp add: persist_def setItem_def)

lemma persist_fails: "write_fails ls \<Longrightarrow> persist env (st, ls) = (st, ls)"
  by (simp add: persist_def setItem_def)

lemma persist_state: "fst (persist env (st, ls)) = st"
  by (simp add: persist_def split: sum.splits)

text \<open>
  C9. Let \<open>JSON.parse\<close> give back the payload that \<open>JSON.stringify\<close> was given, the
  stored text being non-empty. For every conversation list and message map of a hydrated
  state, once the persistence effect has written them to a store that accepts the write,
  \<open>hydrate\<close> on that store, from the seed state or any other, gives a state with the
  same conversation list and the same message map.
\<close>

theorem persist_hydrate_roundtrip:
  assumes "JSON_parse env (JSON_stringify env (payload_of st)) = Some (PObject (payload_of st))"
    and "JSON_stringify env (payload_of st) \<noteq> []"
    and "isHydrated st" and "\<not> write_fails ls" and "\<not> read_fails ls"
  shows "conversations (hydrate env (snd (persist env (st, ls))) st0) = conversations st
       \<and> conversationsById (hydrate env (snd (persist env (st, ls))) st0) = conversationsById st
       \<and> conversations (hydrate env (snd (persist env (st, ls))) initial_state) = conversations st
       \<and> conversationsById (hydrate env (snd (persist env (st, ls))) initial_state)
           = conversationsById st"
proof -
  let ?ls = "snd (persist env (st, ls))"
  have s: "?ls = ls\<lparr>item := Some (JSON_stringify env (payload_of st))\<rparr>"
    using assms(3,4) by (simp add: persist_writes)
  have "hydrate env ?ls s0
          = s0\<lparr>conversations := conversations st, conversationsById := conversationsById st,
               isHydrated := True\<rparr>" for s0
    by (rule hydrate_replaces[where p = "payload_of st"])
       (use assms s in \<open>simp_all add: truthy_def payload_of_def STORAGE_VERSION_def\<close>)
  then show ?thesis by simp
qed

theorem persist_hydrate_roundtrip_witness:
  "conversations (hydrate example_json
       (snd (persist example_json (busy_state, \<lparr>item = None, read_fails = False, write_fails = False\<rparr>)))
       initial_state) = conversations busy_state
   \<and> conversationsById (hydrate example_json
       (snd (persist example_json (busy_state, \<lparr>item = None, read_fails = False, write_fails = False\<rparr>)))
       initial_state) = conversationsById busy_state"
proof -
  have a: "JSON_parse example_json (JSON_stringify example_json (payload_of busy_state))
             = Some (PObject (payload_of busy_state))"
    by (simp add: example_parse)
  have b: "JSON_stringify example_json (payload_of busy_state) \<noteq> []"
    by (simp add: example_parse)
  have c: "isHydrated busy_state" by (simp add: busy_state_eval)
  have d: "\<not> write_fails \<lparr>item = None, read_fails = False, write_fails = False\<rparr>"
          "\<not> read_fails \<lparr>item = None, read_fails = False, write_fails = False\<rparr>"
    by simp_all
  from persist_hydrate_roundtrip[OF a b c d, of initial_state] show ?thesis by blast
qed

text \<open>
  C10. While the hydrated flag is false the persistence effect leaves the store as it
  is. Once the flag is true the effect writes the serialised payload
  \<open>{version: 1, conversations, conversationsById}\<close> of the current state, and it runs
  after every change of the conversation list, of the message map or of the flag. A
  write that fails is caught and leaves the store as it was. In every case the effect
  returns the in-memory state it was given. The flag is false in the seed state and
  true after \<open>hydrate\<close>.
\<close>

theorem persist_after_hydration:
  "(\<not> isHydrated st \<longrightarrow> persist env (st, ls) = (st, ls))
   \<and> (isHydrated st \<and> \<not> write_fails ls
        \<longrightarrow> persist env (st, ls) = (st, ls\<lparr>item := Some (JSON_stringify env (payload_of st))\<rparr>))
   \<and> (write_fails ls \<longrightarrow> persist env (st, ls) = (st, ls))
   \<and> fst (persist env (st, ls)) = st
   \<and> (conversations st \<noteq> conversations old \<or> conversationsById st \<noteq> conversationsById old
          \<or> isHydrated st \<noteq> isHydrated old
        \<longrightarrow> commit env old (st, ls) = persist env (st, ls))
   \<and> payload_of st =
        \<lparr>version = JNum 1, snap_conversations = Some (conversations st),
         snap_conversationsById = Some (conversationsById st)\<rparr>
   \<and> isHydrated initial_state = False
   \<and> isHydrated (hydrate env ls st) = True"
  using persist_skipped persist_writes persist_fails persist_state hydrate_flag
  by (auto simp: commit_def persist_deps_def payload_of_def STORAGE_VERSION_def initial_state_def)

theorem persist_after_hydration_witness:
  "persist example_json (initial_state, \<lparr>item = None, read_fails = False, write_fails = False\<rparr>)
     = (initial_state, \<lparr>item = None, read_fails = False, write_fails = False\<rparr>)
   \<and> persist example_json (busy_state, \<lparr>item = None, read_fails = False, write_fails = False\<rparr>)
     = (busy_state, \<lparr>item = Some stored_text, read_fails = False, write_fails = False\<rparr>)
   \<and> persist example_json (busy_state, \<lparr>item = None, read_fails = False, write_fails = True\<rparr>)
     = (busy_state, \<lparr>item = None, read_fails = False, write_fails = True\<rparr>)
   \<and> commit example_json initial_state
         (busy_state, \<lparr>item = None, read_fails = False, write_fails = False\<rparr>)
     = (busy_state, \<lparr>item = Some stored_text, read_fails = False, write_fails = False\<rparr>)"
proof -
  have a: "\<not> isHydrated initial_state" by (simp add: initial_state_def)
  have b: "isHydrated busy_state" by (simp add: busy_state_eval)
  have c: "conversationsById busy_state \<noteq> conversationsById initial_state"
  proof
    assume "conversationsById busy_state = conversationsById initial_state"
    then have "conversationsById busy_state ''c1'' = conversationsById initial_state ''c1''"
      by simp
    then show False by (simp add: busy_state_eval initial_state_def)
  qed
  show ?thesis
    using a b c
      persist_after_hydration[of initial_state example_json "\<lparr>item = None, read_fails = False, write_fails = False\<rparr>"]
      persist_after_hydration[of busy_state example_json "\<lparr>item = None, read_fails = False, write_fails = False\<rparr>"
             initial_state]
      persist_after_hydration[of busy_state example_json "\<lparr>item = None, read_fails = False, write_fails = True\<rparr>"]
    by (simp add: example_parse)
qed

end
